theory Spec2Isabelle
  imports Complex_Main "HOL-Library.Word"
begin

section \<open>Errors, warnings and native constants\<close>

text \<open>
  The wrapper \<^verbatim>\<open>analog_discovery_wrapper.py\<close> drives the vendor library through
  status-code returning native calls. An exception of the Python code is a value of
  \<open>error\<close>; a call of \<^verbatim>\<open>logger.warning\<close> in a drain is a value of \<open>warning\<close>.
  Python's float64 is read as \<open>real\<close>: the arithmetic of the model is exact.
\<close>

datatype error =
    PyDwfError int string
  | RuntimeError string
  | TypeError string
  | ValueError string
  | UnboundLocalError string
  | ZeroDivisionError
  | IndexError
  | AttributeError string

datatype warning = LostWarning int | CorruptedWarning int

definition SUCCESS_RETURN_CODE :: int where
  "SUCCESS_RETURN_CODE = 1"

text \<open>
  The module \<^verbatim>\<open>dwfconstants\<close> is imported by the wrapper and is not part of the
  repository's files: the constants the modelled functions read are parameters.
\<close>

record dwfconstants =
  DwfStateConfig :: int
  DwfStatePrefill :: int
  DwfStateArmed :: int
  DwfStateDone :: int
  hdwfNone :: int

datatype AnalogInputChannel = Channel1 | Channel2 | Channel3 | Channel4

fun input_value :: "AnalogInputChannel \<Rightarrow> int" where
  "input_value Channel1 = 0"
| "input_value Channel2 = 1"
| "input_value Channel3 = 2"
| "input_value Channel4 = 3"

datatype AnalogOutputChannel = WaveGen1 | WaveGen2

fun output_value :: "AnalogOutputChannel \<Rightarrow> int" where
  "output_value WaveGen1 = 0"
| "output_value WaveGen2 = 1"

section \<open>The scope as a drain sees it\<close>

text \<open>
  One \<open>poll\<close> is what the instrument answers during one iteration of a drain loop:
  the return code and state byte of \<^verbatim>\<open>FDwfAnalogInStatus\<close>, the return code and
  the three counters of \<^verbatim>\<open>FDwfAnalogInStatusRecord\<close>, the answer of
  \<^verbatim>\<open>FDwfAnalogInStatusData16\<close> as a function of its arguments (channel, first
  index, count) giving the return code and the samples it copies out, and the
  last-error code and message the library reports during that iteration.
  A drain consumes one poll per iteration; a script that ends while the loop is still
  polling gives \<open>None\<close>: the call has not returned.
\<close>

record poll =
  status_rc :: int
  status_state :: int
  record_rc :: int
  available :: int
  lost :: int
  corrupted :: int
  status_data16 :: "int \<Rightarrow> int \<Rightarrow> int \<Rightarrow> int \<times> 16 word list"
  last_error :: "int \<times> string"

record scope =
  channel_range :: "int \<Rightarrow> int \<times> real"
  channel_offset :: "int \<Rightarrow> int \<times> real"
  setup_error :: "int \<times> string"
  polls :: "poll list"

definition raise_dwf :: "int \<times> string \<Rightarrow> error" where
  "raise_dwf e = PyDwfError (fst e) (snd e)"

definition get_analog_input_range :: "scope \<Rightarrow> int \<Rightarrow> error + real" where
  "get_analog_input_range dev channel_node =
     (case channel_range dev channel_node of (result, c_range) \<Rightarrow>
        if result \<noteq> SUCCESS_RETURN_CODE then Inl (raise_dwf (setup_error dev))
        else Inr c_range)"

definition get_analog_input_offset :: "scope \<Rightarrow> int \<Rightarrow> error + real" where
  "get_analog_input_offset dev channel_node =
     (case channel_offset dev channel_node of (result, c_offset) \<Rightarrow>
        if result \<noteq> SUCCESS_RETURN_CODE then Inl (raise_dwf (setup_error dev))
        else Inr c_offset)"

text \<open>
  The native fetch writes into the \<^verbatim>\<open>c_int16\<close> array at an element offset. The wrapper
  asks for \<open>cdData\<close> samples, so at most that many are written. A write that does not
  lie inside the array is a matter of memory layout and leaves the modelled array as it
  is.
\<close>

definition write_samples :: "16 word list \<Rightarrow> int \<Rightarrow> 16 word list \<Rightarrow> 16 word list" where
  "write_samples rg off xs =
     (if 0 \<le> off \<and> off + int (length xs) \<le> int (length rg)
      then take (nat off) rg @ xs @ drop (nat off + length xs) rg
      else rg)"

definition fetch16 :: "poll \<Rightarrow> int \<Rightarrow> int \<Rightarrow> int \<Rightarrow> 16 word list" where
  "fetch16 p channel idxData cdData = take (nat cdData) (snd (status_data16 p channel idxData cdData))"

definition to_volts :: "real \<Rightarrow> real \<Rightarrow> 16 word list \<Rightarrow> real list" where
  "to_volts conversion_factor ch_offset rg =
     (let results_array = map (\<lambda>v. real_of_int (sint v) * conversion_factor) rg
      in map (\<lambda>x. x + ch_offset) results_array)"

definition loss_warnings :: "int \<Rightarrow> int \<Rightarrow> warning list" where
  "loss_warnings l c =
     (if l > 0 then [LostWarning l] else []) @ (if c > 0 then [CorruptedWarning c] else [])"

section \<open>FIFO drain: fill_recorded_samples\<close>

text \<open>
  The locals the three drains share: the counters, the local \<^verbatim>\<open>result\<close> of the last
  fetch (\<open>None\<close> while it is unbound) and, beside them, what
  \<^verbatim>\<open>get_last_error\<close> and \<^verbatim>\<open>get_last_error_message\<close> would report at this point.
  The FIFO drain adds its sample array.
\<close>

record drain_state =
  cSamples :: int
  cLost :: int
  cCorrupted :: int
  fetch_result :: "int option"
  dwf_error :: "int \<times> string"

record fifo_state = drain_state +
  rgSamples :: "16 word list"

definition not_started :: "dwfconstants \<Rightarrow> int \<Rightarrow> bool" where
  "not_started K status \<longleftrightarrow>
     status = DwfStateConfig K \<or> status = DwfStatePrefill K \<or> status = DwfStateArmed K"

text \<open>The \<^verbatim>\<open>while cSamples < samples_count\<close> loop, one poll per iteration.\<close>

fun fifo_loop :: "dwfconstants \<Rightarrow> int \<Rightarrow> int \<Rightarrow> fifo_state \<Rightarrow> poll list
    \<Rightarrow> (error + fifo_state) option" where
  "fifo_loop K channel samples_count s [] =
     (if cSamples s < samples_count then None else Some (Inr s))"
| "fifo_loop K channel samples_count s (p # ps) =
     (if cSamples s < samples_count then
        if status_rc p \<noteq> SUCCESS_RETURN_CODE then Some (Inl (raise_dwf (last_error p)))
        else if cSamples s = 0 \<and> not_started K (status_state p)
        then fifo_loop K channel samples_count (s\<lparr>dwf_error := last_error p\<rparr>) ps
        else if record_rc p \<noteq> SUCCESS_RETURN_CODE then Some (Inl (raise_dwf (last_error p)))
        else
          let s1 = s\<lparr>cLost := lost p, cCorrupted := corrupted p,
                     cSamples := cSamples s + lost p, dwf_error := last_error p\<rparr>
          in if available p = 0 then fifo_loop K channel samples_count s1 ps
             else
               let cAvailable = (if cSamples s1 + available p > samples_count
                                 then samples_count - cSamples s1 else available p);
                   s2 = s1\<lparr>rgSamples := write_samples (rgSamples s1) (cSamples s1)
                                           (fetch16 p channel 0 cAvailable),
                           fetch_result := Some (fst (status_data16 p channel 0 cAvailable)),
                           cSamples := cSamples s1 + cAvailable\<rparr>
               in fifo_loop K channel samples_count s2 ps
      else Some (Inr s))"

definition fifo_init :: "scope \<Rightarrow> int \<Rightarrow> fifo_state" where
  "fifo_init dev samples_count =
     \<lparr>cSamples = 0, cLost = 0, cCorrupted = 0,
      fetch_result = None, dwf_error = setup_error dev,
      rgSamples = replicate (nat samples_count) 0\<rparr>"

definition fifo_finish :: "real \<Rightarrow> real \<Rightarrow> fifo_state \<Rightarrow> error + warning list \<times> real list" where
  "fifo_finish conversion_factor ch_offset s =
     (case fetch_result s of
        None \<Rightarrow> Inl (UnboundLocalError ''result'')
      | Some result \<Rightarrow>
          if result \<noteq> SUCCESS_RETURN_CODE then Inl (raise_dwf (dwf_error s))
          else Inr (loss_warnings (cLost s) (cCorrupted s),
                    to_volts conversion_factor ch_offset (rgSamples s)))"

definition fill_recorded_samples :: "dwfconstants \<Rightarrow> scope \<Rightarrow> AnalogInputChannel \<Rightarrow> int
    \<Rightarrow> (error + warning list \<times> real list) option" where
  "fill_recorded_samples K dev input_channel samples_count =
     (if samples_count < 0 then Some (Inl (ValueError ''Array length must be >= 0''))
      else case get_analog_input_range dev (input_value input_channel) of
        Inl e \<Rightarrow> Some (Inl e)
      | Inr c_range \<Rightarrow>
         (let conversion_factor = c_range / 65536 in
          case get_analog_input_offset dev (input_value input_channel) of
            Inl e \<Rightarrow> Some (Inl e)
          | Inr ch_offset \<Rightarrow>
             (case fifo_loop K (input_value input_channel) samples_count
                     (fifo_init dev samples_count) (polls dev) of
                None \<Rightarrow> None
              | Some (Inl e) \<Rightarrow> Some (Inl e)
              | Some (Inr s) \<Rightarrow> Some (fifo_finish conversion_factor ch_offset s))))"

section \<open>Circular drain: fill_recorded_samples_2\<close>

record circ_state = fifo_state +
  iSample :: int

text \<open>
  The inner \<^verbatim>\<open>while cAvailable > 0\<close> loop of one poll. The outer loop reaches it
  with \<open>0 < samples_count\<close> only (the array constructor and the modulo before it raise
  otherwise), and the recursion is written for that case.
\<close>

function circ_fetch :: "int \<Rightarrow> poll \<Rightarrow> int \<Rightarrow> int \<Rightarrow> int \<Rightarrow> circ_state \<Rightarrow> circ_state" where
  "circ_fetch samples_count p channel cAvailable iBuffer s =
     (if cAvailable > 0 \<and> 0 < samples_count then
        let n = (if iSample s + cAvailable > samples_count
                 then samples_count - iSample s else cAvailable);
            s1 = s\<lparr>cSamples := n,
                   rgSamples := write_samples (rgSamples s) (iSample s) (fetch16 p channel iBuffer n),
                   fetch_result := Some (fst (status_data16 p channel iBuffer n)),
                   iSample := (iSample s + n) mod samples_count\<rparr>
        in circ_fetch samples_count p channel (cAvailable - n) (iBuffer + n) s1
      else s)"
  by pat_completeness auto
termination
proof (relation "measures [\<lambda>(n, p, ch, a, b, s). if n \<le> iSample s then 1 else 0,
                           \<lambda>(n, p, ch, a, b, s). nat a]", goal_cases)
  case 1
  show ?case by simp
next
  case (2 samples_count p channel cAvailable iBuffer s x xa)
  have less: "\<And>a. 0 < samples_count \<Longrightarrow> \<not> samples_count \<le> a mod samples_count"
    by (simp add: not_le)
  from 2 show ?case by (auto simp: less split: if_splits)
qed

text \<open>The outer \<^verbatim>\<open>while True\<close> loop; it is left at a poll whose state byte is 2 (Done).\<close>

fun circ_loop :: "int \<Rightarrow> int \<Rightarrow> circ_state \<Rightarrow> poll list \<Rightarrow> (error + circ_state) option" where
  "circ_loop channel samples_count s [] = None"
| "circ_loop channel samples_count s (p # ps) =
     (if status_rc p \<noteq> SUCCESS_RETURN_CODE then Some (Inl (raise_dwf (last_error p)))
      else if record_rc p \<noteq> SUCCESS_RETURN_CODE then Some (Inl (raise_dwf (last_error p)))
      else if samples_count = 0 then Some (Inl ZeroDivisionError)
      else
        let s1 = s\<lparr>cLost := lost p, cCorrupted := corrupted p, dwf_error := last_error p,
                   iSample := (iSample s + lost p) mod samples_count\<rparr>;
            s2 = circ_fetch samples_count p channel (available p) 0 s1
        in if status_state p = 2 then Some (Inr s2)
           else case fetch_result s2 of
                  None \<Rightarrow> Some (Inl (UnboundLocalError ''result''))
                | Some result \<Rightarrow>
                    if result \<noteq> SUCCESS_RETURN_CODE then Some (Inl (raise_dwf (last_error p)))
                    else circ_loop channel samples_count s2 ps)"

definition circ_init :: "scope \<Rightarrow> int \<Rightarrow> circ_state" where
  "circ_init dev samples_count =
     \<lparr>cSamples = 0, cLost = 0, cCorrupted = 0,
      fetch_result = None, dwf_error = setup_error dev,
      rgSamples = replicate (nat samples_count) 0, iSample = 0\<rparr>"

text \<open>Python's slices \<^verbatim>\<open>xs[i:]\<close> and \<^verbatim>\<open>xs[:i]\<close>; a negative index counts from the end.\<close>

definition slice_from :: "'a list \<Rightarrow> int \<Rightarrow> 'a list" where
  "slice_from xs i = drop (nat (if i < 0 then int (length xs) + i else i)) xs"

definition slice_upto :: "'a list \<Rightarrow> int \<Rightarrow> 'a list" where
  "slice_upto xs i = take (nat (if i < 0 then int (length xs) + i else i)) xs"

definition align_recorded :: "circ_state \<Rightarrow> 16 word list" where
  "align_recorded s =
     (if iSample s \<noteq> 0
      then slice_from (rgSamples s) (iSample s) @ slice_upto (rgSamples s) (iSample s)
      else rgSamples s)"

definition fill_recorded_samples_2 :: "scope \<Rightarrow> AnalogInputChannel \<Rightarrow> int
    \<Rightarrow> (error + warning list \<times> real list) option" where
  "fill_recorded_samples_2 dev input_channel samples_count =
     (if samples_count < 0 then Some (Inl (ValueError ''Array length must be >= 0''))
      else case get_analog_input_range dev (input_value input_channel) of
        Inl e \<Rightarrow> Some (Inl e)
      | Inr c_range \<Rightarrow>
         (let conversion_factor = c_range / 65536 in
          case get_analog_input_offset dev (input_value input_channel) of
            Inl e \<Rightarrow> Some (Inl e)
          | Inr ch_offset \<Rightarrow>
             (case circ_loop (input_value input_channel) samples_count
                     (circ_init dev samples_count) (polls dev) of
                None \<Rightarrow> None
              | Some (Inl e) \<Rightarrow> Some (Inl e)
              | Some (Inr s) \<Rightarrow>
                  Some (Inr (loss_warnings (cLost s) (cCorrupted s),
                             to_volts conversion_factor ch_offset (align_recorded s))))))"

section \<open>Multi-channel FIFO drain: fill_recorded_samples_on_channels\<close>

record multi_state = drain_state +
  channels_data :: "16 word list list"

text \<open>
  The \<^verbatim>\<open>for i, ch in enumerate(input_channels)\<close> loop of one poll: every channel is
  fetched into its own array, and \<^verbatim>\<open>result\<close> keeps the return code of the fetch
  made last.
\<close>

fun fetch_channels :: "poll \<Rightarrow> int \<Rightarrow> int \<Rightarrow> AnalogInputChannel list \<Rightarrow> nat
    \<Rightarrow> multi_state \<Rightarrow> multi_state" where
  "fetch_channels p off cAvailable [] i s = s"
| "fetch_channels p off cAvailable (ch # chs) i s =
     fetch_channels p off cAvailable chs (Suc i)
       (s\<lparr>channels_data := (channels_data s)
              [i := write_samples (channels_data s ! i) off
                      (fetch16 p (input_value ch) 0 cAvailable)],
          fetch_result := Some (fst (status_data16 p (input_value ch) 0 cAvailable))\<rparr>)"

fun multi_loop :: "dwfconstants \<Rightarrow> AnalogInputChannel list \<Rightarrow> int \<Rightarrow> multi_state \<Rightarrow> poll list
    \<Rightarrow> (error + multi_state) option" where
  "multi_loop K input_channels samples_count s [] =
     (if cSamples s < samples_count then None else Some (Inr s))"
| "multi_loop K input_channels samples_count s (p # ps) =
     (if cSamples s < samples_count then
        if status_rc p \<noteq> SUCCESS_RETURN_CODE then Some (Inl (raise_dwf (last_error p)))
        else if cSamples s = 0 \<and> not_started K (status_state p)
        then multi_loop K input_channels samples_count (s\<lparr>dwf_error := last_error p\<rparr>) ps
        else if record_rc p \<noteq> SUCCESS_RETURN_CODE then Some (Inl (raise_dwf (last_error p)))
        else
          let s1 = s\<lparr>cLost := lost p, cCorrupted := corrupted p,
                     cSamples := cSamples s + lost p, dwf_error := last_error p\<rparr>
          in if available p = 0 then multi_loop K input_channels samples_count s1 ps
             else
               let cAvailable = (if cSamples s1 + available p > samples_count
                                 then samples_count - cSamples s1 else available p);
                   s2 = fetch_channels p (cSamples s1) cAvailable input_channels 0 s1;
                   s3 = s2\<lparr>cSamples := cSamples s2 + cAvailable\<rparr>
               in multi_loop K input_channels samples_count s3 ps
      else Some (Inr s))"

definition multi_init :: "scope \<Rightarrow> AnalogInputChannel list \<Rightarrow> int \<Rightarrow> multi_state" where
  "multi_init dev input_channels samples_count =
     \<lparr>cSamples = 0, cLost = 0, cCorrupted = 0,
      fetch_result = None, dwf_error = setup_error dev,
      channels_data = map (\<lambda>ch. replicate (nat samples_count) 0) input_channels\<rparr>"

definition multi_finish :: "real \<Rightarrow> real \<Rightarrow> multi_state \<Rightarrow> error + warning list \<times> real list list" where
  "multi_finish conversion_factor ch_offset s =
     (case fetch_result s of
        None \<Rightarrow> Inl (UnboundLocalError ''result'')
      | Some result \<Rightarrow>
          if result \<noteq> SUCCESS_RETURN_CODE then Inl (raise_dwf (dwf_error s))
          else Inr (loss_warnings (cLost s) (cCorrupted s),
                    map (to_volts conversion_factor ch_offset) (channels_data s)))"

definition fill_recorded_samples_on_channels :: "dwfconstants \<Rightarrow> scope
    \<Rightarrow> AnalogInputChannel list \<Rightarrow> int \<Rightarrow> (error + warning list \<times> real list list) option" where
  "fill_recorded_samples_on_channels K dev input_channels samples_count =
     (case input_channels of
        [] \<Rightarrow> Some (Inl IndexError)
      | first # _ \<Rightarrow>
         if samples_count < 0 then Some (Inl (ValueError ''Array length must be >= 0''))
         else
          (case get_analog_input_range dev (input_value first) of
             Inl e \<Rightarrow> Some (Inl e)
           | Inr c_range \<Rightarrow>
              (let conversion_factor = c_range / 65536 in
               case get_analog_input_offset dev (input_value first) of
                 Inl e \<Rightarrow> Some (Inl e)
               | Inr ch_offset \<Rightarrow>
                  (case multi_loop K input_channels samples_count
                          (multi_init dev input_channels samples_count) (polls dev) of
                     None \<Rightarrow> None
                   | Some (Inl e) \<Rightarrow> Some (Inl e)
                   | Some (Inr s) \<Rightarrow> Some (multi_finish conversion_factor ch_offset s)))))"

section \<open>The library as a flow sees it\<close>

text \<open>
  For the configuration flows the vendor library is a function from the native calls
  made so far (the newest first) and the call being made to its reply: the return
  code, the integers written to the out-parameters and, for
  \<^verbatim>\<open>FDwfGetLastErrorMsg\<close>, the text. A flow takes the library and the calls made so
  far and gives its outcome together with the calls made so far afterwards, so the
  calls that reach the library can be counted. The device handle that every call
  passes first is left out of the arguments. An argument is the Python value the
  wrapper hands to the ctypes constructor (\<^verbatim>\<open>c_int(n)\<close> is \<open>IntArg n\<close>), before
  ctypes reduces it to the width of the C type. \<^verbatim>\<open>time.sleep\<close> and
  \<^verbatim>\<open>logger.debug\<close> are not modelled.
\<close>

datatype arg = IntArg int | DoubleArg real | ArrayArg "real list"

datatype native_call = Call string "arg list"

record reply =
  return_code :: int
  out :: "int list"
  message :: string

type_synonym library = "native_call list \<Rightarrow> native_call \<Rightarrow> reply"

type_synonym 'a flow = "library \<Rightarrow> native_call list \<Rightarrow> (error + 'a) \<times> native_call list"

definition ret :: "'a \<Rightarrow> 'a flow" where
  "ret x lib h = (Inr x, h)"

definition raise_error :: "error \<Rightarrow> 'a flow" where
  "raise_error e lib h = (Inl e, h)"

definition then_do :: "'a flow \<Rightarrow> ('a \<Rightarrow> 'b flow) \<Rightarrow> 'b flow" where
  "then_do m f lib h = (case m lib h of (Inl e, h') \<Rightarrow> (Inl e, h') | (Inr x, h') \<Rightarrow> f x lib h')"

fun run_all :: "unit flow list \<Rightarrow> unit flow" where
  "run_all [] = ret ()"
| "run_all (m # ms) = then_do m (\<lambda>_. run_all ms)"

definition native :: "native_call \<Rightarrow> reply flow" where
  "native c lib h = (Inr (lib h c), c # h)"

text \<open>
  An out-parameter is a zero-initialised ctypes value: it reads 0 when the library
  writes nothing to it.
\<close>

definition out_nth :: "reply \<Rightarrow> nat \<Rightarrow> int" where
  "out_nth r k = (if k < length (out r) then out r ! k else 0)"

definition get_last_error :: "int flow" where
  "get_last_error = then_do (native (Call ''FDwfGetLastError'' [])) (\<lambda>r. ret (out_nth r 0))"

definition get_last_error_message :: "string flow" where
  "get_last_error_message =
     then_do (native (Call ''FDwfGetLastErrorMsg'' [])) (\<lambda>r. ret (message r))"

text \<open>
  \<^verbatim>\<open>raise PyDwfError(self.get_last_error(), self.get_last_error_message())\<close>: the
  code is read first, then the message.
\<close>

definition raise_PyDwfError :: "'a flow" where
  "raise_PyDwfError =
     then_do get_last_error (\<lambda>code.
     then_do get_last_error_message (\<lambda>msg. raise_error (PyDwfError code msg)))"

text \<open>
  The template of the wrapper's methods: one native call, then the test of its return
  code.
\<close>

definition checked :: "native_call \<Rightarrow> reply flow" where
  "checked c =
     then_do (native c) (\<lambda>r.
       if return_code r \<noteq> SUCCESS_RETURN_CODE then raise_PyDwfError else ret r)"

definition checked_set :: "native_call \<Rightarrow> unit flow" where
  "checked_set c = then_do (checked c) (\<lambda>_. ret ())"

text \<open>
  Four methods (\<^verbatim>\<open>_set_analog_output_trigger_slope\<close>,
  \<^verbatim>\<open>_get_analog_output_trigger_slope\<close>, \<^verbatim>\<open>_set_analog_output_idle_state\<close>,
  \<^verbatim>\<open>_get_analog_output_idle_state\<close>) pass the method
  \<^verbatim>\<open>self.get_last_error_message\<close> itself instead of calling it: the message is not
  read, and the exception carries the method object, written here as a fixed text.
\<close>

definition checked_message_unread :: "native_call \<Rightarrow> reply flow" where
  "checked_message_unread c =
     then_do (native c) (\<lambda>r.
       if return_code r \<noteq> SUCCESS_RETURN_CODE
       then then_do get_last_error (\<lambda>code.
              raise_error (PyDwfError code ''<bound method get_last_error_message>''))
       else ret r)"

definition set_analog_input_trigger_source :: "int \<Rightarrow> real \<Rightarrow> unit flow" where
  "set_analog_input_trigger_source trigger_source sec_timeout =
     then_do (native (Call ''FDwfAnalogInTriggerAutoTimeoutSet'' [DoubleArg sec_timeout])) (\<lambda>r1.
     then_do (native (Call ''FDwfAnalogInTriggerSourceSet'' [IntArg trigger_source])) (\<lambda>r2.
       if return_code r1 \<noteq> SUCCESS_RETURN_CODE \<or> return_code r2 \<noteq> SUCCESS_RETURN_CODE
       then raise_PyDwfError else ret ()))"

section \<open>Opening the connection\<close>

text \<open>
  \<^verbatim>\<open>open_connection(config_index)\<close> with \<open>config_index\<close> of the declared type
  \<^verbatim>\<open>Optional[int]\<close>. \<open>hdwf\<close> is \<^verbatim>\<open>self._hdwf\<close> before the call; the library
  writes the new handle to it. The result is the handle.
\<close>

definition truthy :: "int option \<Rightarrow> bool" where
  "truthy v = (case v of None \<Rightarrow> False | Some n \<Rightarrow> n \<noteq> 0)"

definition open_connection :: "dwfconstants \<Rightarrow> int option \<Rightarrow> int \<Rightarrow> int flow" where
  "open_connection K config_index hdwf =
     then_do
       (if \<not> truthy config_index
        then native (Call ''FDwfDeviceOpen'' [IntArg (- 1)])
        else native (Call ''FDwfDeviceConfigOpen'' [IntArg (- 1), IntArg (the config_index)]))
       (\<lambda>r. let hdwf' = (case out r of [] \<Rightarrow> hdwf | v # _ \<Rightarrow> v)
            in if hdwf' = hdwfNone K then raise_PyDwfError else ret hdwf')"

section \<open>Enable-gated flows\<close>

text \<open>
  An element of a channel list: a member of one of the two channel enumerations, or
  some other object.
\<close>

datatype channel = Input AnalogInputChannel | Output AnalogOutputChannel | NotAChannel

text \<open>The argument given for a channel list: a list, or some other object.\<close>

datatype channels_arg = ChannelList "channel list" | NotAList

text \<open>
  The constants of \<^verbatim>\<open>dwfconstants\<close> the two flows read, and the values of the
  members of the enumerations a read-back converts to.
\<close>

record flow_constants =
  AnalogOutNodeCarrier :: int
  funcCustom :: int
  funcPlay :: int
  acqmodeRecord :: int
  AnalogOutputSignal_values :: "int list"
  AnalogOutputIdleState_values :: "int list"
  AnalogTriggerSource_values :: "int list"
  AnalogTriggerSlope_values :: "int list"

definition enable_query :: "flow_constants \<Rightarrow> channel \<Rightarrow> native_call" where
  "enable_query F ch =
     (case ch of
        Input c \<Rightarrow> Call ''FDwfAnalogInChannelEnableGet'' [IntArg (input_value c)]
      | Output c \<Rightarrow> Call ''FDwfAnalogOutNodeEnableGet''
                      [IntArg (output_value c), IntArg (AnalogOutNodeCarrier F)]
      | NotAChannel \<Rightarrow> Call [] [])"

definition get_analog_channel_enable_state :: "flow_constants \<Rightarrow> channel \<Rightarrow> int flow" where
  "get_analog_channel_enable_state F ch =
     (case ch of
        NotAChannel \<Rightarrow> raise_error (RuntimeError ''Invalid channel selection'')
      | _ \<Rightarrow> then_do (checked (enable_query F ch)) (\<lambda>r. ret (out_nth r 0)))"

fun verify_channels_enable_status :: "flow_constants \<Rightarrow> channel list \<Rightarrow> unit flow" where
  "verify_channels_enable_status F [] = ret ()"
| "verify_channels_enable_status F (ch # chs) =
     then_do (get_analog_channel_enable_state F ch) (\<lambda>state.
       if state \<noteq> 1 then raise_error (RuntimeError ''channel is not enabled'')
       else verify_channels_enable_status F chs)"

text \<open>\<^verbatim>\<open>ch.value\<close> of an element of a channel list.\<close>

definition channel_value :: "channel \<Rightarrow> int flow" where
  "channel_value ch =
     (case ch of
        Input c \<Rightarrow> ret (input_value c)
      | Output c \<Rightarrow> ret (output_value c)
      | NotAChannel \<Rightarrow> raise_error (AttributeError ''value''))"

text \<open>The conversion \<^verbatim>\<open>SomeEnum(value)\<close> of a read-back.\<close>

definition enum_member :: "int list \<Rightarrow> int \<Rightarrow> unit flow" where
  "enum_member vals v =
     (if v \<in> set vals then ret () else raise_error (ValueError ''not a valid enumeration value''))"

subsection \<open>record_analog_signal\<close>

record record_args =
  sampling_frequency :: real
  record_length :: real
  range_volts :: real
  offset_volts :: real
  analog_filter :: int
  trigger_source :: "int option"
  trigger_source_position :: real
  trigger_type :: int
  trigger_level :: real
  trigger_condition :: int
  trigger_timeout :: real
  trigger_hysteresis :: real

definition record_channel :: "record_args \<Rightarrow> channel \<Rightarrow> unit flow" where
  "record_channel a ch =
     then_do (channel_value ch) (\<lambda>v.
       run_all
         [checked_set (Call ''FDwfAnalogInChannelRangeSet'' [IntArg v, DoubleArg (range_volts a)]),
          checked_set (Call ''FDwfAnalogInChannelOffsetSet'' [IntArg v, DoubleArg (offset_volts a)]),
          checked_set (Call ''FDwfAnalogInChannelFilterSet'' [IntArg v, IntArg (analog_filter a)])])"

definition record_trigger :: "record_args \<Rightarrow> channel list \<Rightarrow> unit flow" where
  "record_trigger a input_channels =
     (case trigger_source a of
        None \<Rightarrow> ret ()
      | Some source \<Rightarrow>
          run_all
            [set_analog_input_trigger_source source (trigger_timeout a),
             checked_set (Call ''FDwfAnalogInTriggerPositionSet''
                            [DoubleArg (trigger_source_position a)]),
             checked_set (Call ''FDwfAnalogInTriggerTypeSet'' [IntArg (trigger_type a)]),
             (case input_channels of
                [] \<Rightarrow> raise_error IndexError
              | first # _ \<Rightarrow>
                  then_do (channel_value first) (\<lambda>v.
                    checked_set (Call ''FDwfAnalogInTriggerChannelSet'' [IntArg v]))),
             checked_set (Call ''FDwfAnalogInTriggerLevelSet'' [DoubleArg (trigger_level a)]),
             checked_set (Call ''FDwfAnalogInTriggerHysteresisSet''
                            [DoubleArg (trigger_hysteresis a)]),
             checked_set (Call ''FDwfAnalogInTriggerConditionSet''
                            [IntArg (trigger_condition a)])])"

definition record_analog_signal :: "flow_constants \<Rightarrow> channels_arg \<Rightarrow> record_args \<Rightarrow> unit flow" where
  "record_analog_signal F input_channels a =
     (case input_channels of
        NotAList \<Rightarrow> raise_error (RuntimeError ''Expected a list of AnalogInputChannel'')
      | ChannelList chs \<Rightarrow>
          then_do (verify_channels_enable_status F chs) (\<lambda>_.
            run_all
              ([checked_set (Call ''FDwfDeviceAutoConfigureSet'' [IntArg 0]),
                checked_set (Call ''FDwfAnalogInAcquisitionModeSet'' [IntArg (acqmodeRecord F)]),
                checked_set (Call ''FDwfAnalogInFrequencySet'' [DoubleArg (sampling_frequency a)]),
                checked_set (Call ''FDwfAnalogInRecordLengthSet'' [DoubleArg (record_length a)])]
               @ map (record_channel a) chs
               @ [record_trigger a chs,
                  checked_set (Call ''FDwfAnalogInConfigure'' [IntArg 1, IntArg 0]),
                  checked_set (Call ''FDwfAnalogInConfigure'' [IntArg 0, IntArg 1])])))"

subsection \<open>play_analog_signal\<close>

record play_args =
  signal_type :: int
  frequency :: real
  amplitude :: real
  analog_data :: "real list option"
  play_offset :: real
  phase :: real
  symmetry :: real
  play_duration :: real
  repeat_count :: int
  wait_duration :: real
  idle_state :: int
  play_trigger_source :: "int option"
  trigger_slope :: int

definition set_analog_output_data :: "flow_constants \<Rightarrow> int \<Rightarrow> real list \<Rightarrow> unit flow" where
  "set_analog_output_data F channel_node data =
     then_do (checked (Call ''FDwfAnalogOutNodeDataInfo''
                         [IntArg channel_node, IntArg (AnalogOutNodeCarrier F)])) (\<lambda>r.
       let c_samples_max = out_nth r 1;
           c_buffer_data_size = (if c_samples_max > int (length data) then int (length data)
                                 else c_samples_max)
       in checked_set (Call ''FDwfAnalogOutNodeDataSet''
                         [IntArg channel_node, IntArg (AnalogOutNodeCarrier F), ArrayArg data,
                          IntArg c_buffer_data_size]))"

text \<open>
  \<^verbatim>\<open>if analog_data:\<close> for custom and play signals. \<^verbatim>\<open>None\<close> is false; the truth
  value of an array is numpy's and is the parameter \<open>array_truth\<close>.
\<close>

definition play_custom_data :: "flow_constants \<Rightarrow> (real list \<Rightarrow> error + bool) \<Rightarrow> play_args \<Rightarrow> int
    \<Rightarrow> unit flow" where
  "play_custom_data F array_truth a v =
     (if signal_type a = funcCustom F \<or> signal_type a = funcPlay F then
        (case analog_data a of
           None \<Rightarrow> raise_error (RuntimeError ''analog_data was not defined for custom play'')
         | Some data \<Rightarrow>
            (case array_truth data of
               Inl e \<Rightarrow> raise_error e
             | Inr True \<Rightarrow> set_analog_output_data F v data
             | Inr False \<Rightarrow>
                 raise_error (RuntimeError ''analog_data was not defined for custom play'')))
      else ret ())"

definition play_configure :: "flow_constants \<Rightarrow> (real list \<Rightarrow> error + bool) \<Rightarrow> play_args
    \<Rightarrow> channel \<Rightarrow> unit flow" where
  "play_configure F array_truth a ch =
     then_do (channel_value ch) (\<lambda>v.
       run_all
         ([checked_set (Call ''FDwfAnalogOutNodeFunctionSet''
                          [IntArg v, IntArg (AnalogOutNodeCarrier F), IntArg (signal_type a)]),
           play_custom_data F array_truth a v,
           then_do (checked_message_unread (Call ''FDwfAnalogOutIdleSet''
                          [IntArg v, IntArg (idle_state a)])) (\<lambda>_. ret ()),
           checked_set (Call ''FDwfAnalogOutNodeFrequencySet''
                          [IntArg v, IntArg (AnalogOutNodeCarrier F), DoubleArg (frequency a)]),
           checked_set (Call ''FDwfAnalogOutNodeAmplitudeSet''
                          [IntArg v, IntArg (AnalogOutNodeCarrier F), DoubleArg (amplitude a)]),
           checked_set (Call ''FDwfAnalogOutNodeOffsetSet''
                          [IntArg v, IntArg (AnalogOutNodeCarrier F), DoubleArg (play_offset a)]),
           checked_set (Call ''FDwfAnalogOutNodeSymmetrySet''
                          [IntArg v, IntArg (AnalogOutNodeCarrier F), DoubleArg (symmetry a)]),
           checked_set (Call ''FDwfAnalogOutNodePhaseSet''
                          [IntArg v, IntArg (AnalogOutNodeCarrier F), DoubleArg (phase a)]),
           checked_set (Call ''FDwfAnalogOutRunSet'' [IntArg v, DoubleArg (play_duration a)]),
           checked_set (Call ''FDwfAnalogOutWaitSet'' [IntArg v, DoubleArg (wait_duration a)]),
           checked_set (Call ''FDwfAnalogOutRepeatSet'' [IntArg v, IntArg (repeat_count a)])]
          @ (case play_trigger_source a of
               None \<Rightarrow> []
             | Some source \<Rightarrow>
                 [checked_set (Call ''FDwfAnalogOutTriggerSourceSet'' [IntArg v, IntArg source]),
                  then_do (checked_message_unread (Call ''FDwfAnalogOutTriggerSlopeSet''
                             [IntArg v, IntArg (trigger_slope a)])) (\<lambda>_. ret ())])))"

text \<open>The read-back of the configuration for the debug log, in the order of the source.\<close>

definition play_read_back :: "flow_constants \<Rightarrow> channel \<Rightarrow> unit flow" where
  "play_read_back F ch =
     then_do (channel_value ch) (\<lambda>v.
       run_all
         [then_do (checked_message_unread (Call ''FDwfAnalogOutIdleGet'' [IntArg v])) (\<lambda>r.
            enum_member (AnalogOutputIdleState_values F) (out_nth r 0)),
          then_do (checked (Call ''FDwfAnalogOutNodeFunctionGet''
                              [IntArg v, IntArg (AnalogOutNodeCarrier F)])) (\<lambda>r.
            enum_member (AnalogOutputSignal_values F) (out_nth r 0)),
          checked_set (Call ''FDwfAnalogOutNodeFrequencyGet''
                         [IntArg v, IntArg (AnalogOutNodeCarrier F)]),
          checked_set (Call ''FDwfAnalogOutNodeAmplitudeGet''
                         [IntArg v, IntArg (AnalogOutNodeCarrier F)]),
          checked_set (Call ''FDwfAnalogOutNodeOffsetGet''
                         [IntArg v, IntArg (AnalogOutNodeCarrier F)]),
          checked_set (Call ''FDwfAnalogOutNodePhaseGet''
                         [IntArg v, IntArg (AnalogOutNodeCarrier F)]),
          checked_set (Call ''FDwfAnalogOutNodeSymmetryGet''
                         [IntArg v, IntArg (AnalogOutNodeCarrier F)]),
          checked_set (Call ''FDwfAnalogOutRunGet'' [IntArg v]),
          checked_set (Call ''FDwfAnalogOutWaitGet'' [IntArg v]),
          checked_set (Call ''FDwfAnalogOutRepeatGet'' [IntArg v]),
          then_do (checked (Call ''FDwfAnalogOutTriggerSourceGet'' [IntArg v])) (\<lambda>r.
            enum_member (AnalogTriggerSource_values F) (out_nth r 0)),
          then_do (checked_message_unread (Call ''FDwfAnalogOutTriggerSlopeGet'' [IntArg v])) (\<lambda>r.
            enum_member (AnalogTriggerSlope_values F) (out_nth r 0))])"

definition play_start :: "channel \<Rightarrow> unit flow" where
  "play_start ch =
     then_do (channel_value ch) (\<lambda>v.
       checked_set (Call ''FDwfAnalogOutConfigure'' [IntArg v, IntArg 1]))"

text \<open>
  In \<^verbatim>\<open>play_analog_signal\<close> the parameter \<^verbatim>\<open>type\<close> hides the builtin, so the
  message of the list test, which calls \<^verbatim>\<open>type(output_channels)\<close>, fails with a
  \<^verbatim>\<open>TypeError\<close> before the \<^verbatim>\<open>RuntimeError\<close> is built.
\<close>

definition play_analog_signal :: "flow_constants \<Rightarrow> (real list \<Rightarrow> error + bool) \<Rightarrow> channels_arg
    \<Rightarrow> play_args \<Rightarrow> unit flow" where
  "play_analog_signal F array_truth output_channels a =
     (case output_channels of
        NotAList \<Rightarrow> raise_error (TypeError ''AnalogOutputSignal object is not callable'')
      | ChannelList chs \<Rightarrow>
          then_do (verify_channels_enable_status F chs) (\<lambda>_.
            run_all (map (play_configure F array_truth a) chs
                     @ map (play_read_back F) chs
                     @ map play_start chs)))"

section \<open>Network analysis: the frequency steps\<close>

text \<open>
  The frequency of step \<open>i\<close> as \<^verbatim>\<open>perform_netwrok_analysis\<close> computes it, with the
  exceptions of the expression in the order of its evaluation: the division by
  \<^verbatim>\<open>steps - 1\<close>, the division by \<^verbatim>\<open>freq_start\<close>, and \<^verbatim>\<open>math.log10\<close> of a
  ratio that is not positive.
\<close>

definition sweep_frequency :: "real \<Rightarrow> real \<Rightarrow> int \<Rightarrow> int \<Rightarrow> error + real" where
  "sweep_frequency freq_start freq_stop steps i =
     (if steps - 1 = 0 then Inl ZeroDivisionError
      else if freq_start = 0 then Inl ZeroDivisionError
      else if freq_stop / freq_start \<le> 0 then Inl (ValueError ''math domain error'')
      else Inr (freq_stop *
                (10 powr (1 * (1 * real_of_int i / real_of_int (steps - 1) - 1)
                            * log 10 (freq_stop / freq_start)))))"

record analysis =
  rgHz :: "real list"
  rgGaC1 :: "real list"
  rgGaC2 :: "real list"
  rgPhC2 :: "real list"

definition store_measurement :: "analysis \<Rightarrow> int \<Rightarrow> real \<times> real \<times> real \<Rightarrow> error + analysis" where
  "store_measurement a i m =
     (case m of (gain1, gain2, phase2) \<Rightarrow>
        if gain1 = 0 then Inl ZeroDivisionError
        else if gain2 = 0 then Inl ZeroDivisionError
        else Inr (a\<lparr>rgGaC1 := (rgGaC1 a)[nat i := 1 / gain1],
                    rgGaC2 := (rgGaC2 a)[nat i := 1 / gain2],
                    rgPhC2 := (rgPhC2 a)[nat i := - phase2 * 180 / pi]\<rparr>))"

text \<open>
  The loop \<^verbatim>\<open>for i in range(steps)\<close>. What the instrument does within a step is a
  parameter: \<open>measure_step i hz\<close> stands for setting the frequency, polling until the state
  is Done and reading the two gains and the phase (\<open>None\<close> when the state never
  becomes Done, an exception when a call fails), and \<open>check_warnings i\<close> for the
  out-of-range queries of the two channels, which raise or pass.
\<close>

fun analysis_steps :: "(int \<Rightarrow> real \<Rightarrow> (error + real \<times> real \<times> real) option) \<Rightarrow> (int \<Rightarrow> error option)
    \<Rightarrow> real \<Rightarrow> real \<Rightarrow> int \<Rightarrow> int list \<Rightarrow> analysis \<Rightarrow> (error + analysis) option" where
  "analysis_steps measure_step check_warnings freq_start freq_stop steps [] a = Some (Inr a)"
| "analysis_steps measure_step check_warnings freq_start freq_stop steps (i # rest) a =
     (case sweep_frequency freq_start freq_stop steps i of
        Inl e \<Rightarrow> Some (Inl e)
      | Inr hz \<Rightarrow>
         (let a1 = a\<lparr>rgHz := (rgHz a)[nat i := hz]\<rparr> in
          case measure_step i hz of
            None \<Rightarrow> None
          | Some (Inl e) \<Rightarrow> Some (Inl e)
          | Some (Inr m) \<Rightarrow>
             (case store_measurement a1 i m of
                Inl e \<Rightarrow> Some (Inl e)
              | Inr a2 \<Rightarrow>
                 (case check_warnings i of
                    Some e \<Rightarrow> Some (Inl e)
                  | None \<Rightarrow> analysis_steps measure_step check_warnings freq_start freq_stop
                              steps rest a2))))"

text \<open>
  The function: \<open>setup\<close> is the outcome of the configuration calls before the loop and
  \<open>stop\<close> that of the call that stops the analyzer (\<open>Some e\<close> when it raises
  \<open>e\<close>).
\<close>

definition perform_netwrok_analysis :: "error option \<Rightarrow> (int \<Rightarrow> real \<Rightarrow> (error + real \<times> real \<times> real) option)
    \<Rightarrow> (int \<Rightarrow> error option) \<Rightarrow> error option \<Rightarrow> real \<Rightarrow> real \<Rightarrow> int
    \<Rightarrow> (error + analysis) option" where
  "perform_netwrok_analysis setup measure_step check_warnings stop freq_start freq_stop steps =
     (case setup of
        Some e \<Rightarrow> Some (Inl e)
      | None \<Rightarrow>
         (case analysis_steps measure_step check_warnings freq_start freq_stop steps
                 (map int [0..<nat steps])
                 \<lparr>rgHz = replicate (nat steps) 0, rgGaC1 = replicate (nat steps) 0,
                  rgGaC2 = replicate (nat steps) 0, rgPhC2 = replicate (nat steps) 0\<rparr> of
            None \<Rightarrow> None
          | Some (Inl e) \<Rightarrow> Some (Inl e)
          | Some (Inr a) \<Rightarrow>
             (case stop of Some e \<Rightarrow> Some (Inl e) | None \<Rightarrow> Some (Inr a))))"

text \<open>
  The schedule in the words of the specification:
  \<^verbatim>\<open>f_i = freq_stop * 10^((i/(steps-1) - 1) * log10(freq_stop/freq_start))\<close>.
\<close>

definition spec_frequency :: "real \<Rightarrow> real \<Rightarrow> int \<Rightarrow> int \<Rightarrow> real" where
  "spec_frequency freq_start freq_stop steps i =
     freq_stop * 10 powr ((real_of_int i / real_of_int (steps - 1) - 1)
                            * log 10 (freq_stop / freq_start))"

text \<open>An analyzer that measures gain 2 on both channels and phase 0 at every step.\<close>

definition steady_measure :: "int \<Rightarrow> real \<Rightarrow> (error + real \<times> real \<times> real) option" where
  "steady_measure i hz = Some (Inr (2, 2, 0))"

section \<open>Auxiliary definitions\<close>

text \<open>
  The blocks of the loop body, named for the proofs: the state after the record
  counters are read, the clamped fetch count, and the state after the fetch.
\<close>

definition after_record :: "fifo_state \<Rightarrow> poll \<Rightarrow> fifo_state" where
  "after_record s p = s\<lparr>cLost := lost p, cCorrupted := corrupted p,
                     cSamples := cSamples s + lost p, dwf_error := last_error p\<rparr>"

definition clamped :: "int \<Rightarrow> fifo_state \<Rightarrow> poll \<Rightarrow> int" where
  "clamped n s1 p = (if cSamples s1 + available p > n then n - cSamples s1 else available p)"

definition after_fetch :: "int \<Rightarrow> int \<Rightarrow> fifo_state \<Rightarrow> poll \<Rightarrow> fifo_state" where
  "after_fetch ch n s1 p =
     s1\<lparr>rgSamples := write_samples (rgSamples s1) (cSamples s1) (fetch16 p ch 0 (clamped n s1 p)),
        fetch_result := Some (fst (status_data16 p ch 0 (clamped n s1 p))),
        cSamples := cSamples s1 + clamped n s1 p\<rparr>"

text \<open>
  What a script offers to a FIFO drain: the samples reported available by the polls
  whose state is past Config, Prefill and Armed. \<open>fifo_device_ok\<close> is an
  instrument that answers every call with success, reports no negative availability
  and offers at least the requested count.
\<close>

definition acquired :: "dwfconstants \<Rightarrow> poll list \<Rightarrow> int" where
  "acquired K ps = sum_list (map available (filter (\<lambda>p. \<not> not_started K (status_state p)) ps))"

definition poll_ok :: "int \<Rightarrow> poll \<Rightarrow> bool" where
  "poll_ok ch p \<longleftrightarrow>
     status_rc p = 1 \<and> record_rc p = 1 \<and> 0 \<le> available p
     \<and> (\<forall>i c. fst (status_data16 p ch i c) = 1)"

definition fifo_device_ok :: "dwfconstants \<Rightarrow> scope \<Rightarrow> AnalogInputChannel \<Rightarrow> int \<Rightarrow> bool" where
  "fifo_device_ok K dev input_channel samples_count \<longleftrightarrow>
     fst (channel_range dev (input_value input_channel)) = 1
     \<and> fst (channel_offset dev (input_value input_channel)) = 1
     \<and> list_all (poll_ok (input_value input_channel)) (polls dev)
     \<and> samples_count \<le> acquired K (polls dev)"

text \<open>
  The conversion in the words of the specification:
  \<^verbatim>\<open>value * (range / 65536) + offset\<close>.
\<close>

definition spec_voltage :: "real \<Rightarrow> real \<Rightarrow> int \<Rightarrow> real" where
  "spec_voltage rng off r = real_of_int r * (rng / 65536) + off"

section \<open>Concrete instruments for evaluation\<close>

text \<open>
  The state constants as the vendor's \<^verbatim>\<open>dwfconstants.py\<close> numbers them (Armed 1,
  Done 2, Running 3, Config 4, Prefill 5; \<^verbatim>\<open>hdwfNone\<close> 0). They are used to
  evaluate the model on concrete inputs only; the general theorems hold for every
  value of the constants.
\<close>

definition sdk_constants :: dwfconstants where
  "sdk_constants = \<lparr>DwfStateConfig = 4, DwfStatePrefill = 5, DwfStateArmed = 1,
                     DwfStateDone = 2, hdwfNone = 0\<rparr>"

text \<open>
  A poll in the given state that answers every call with success apart from the fetch,
  whose return code is \<open>rc\<close>; the fetch copies from the samples \<open>xs\<close>, starting at
  the index asked for.
\<close>

definition a_poll :: "int \<Rightarrow> int \<Rightarrow> int \<Rightarrow> int \<Rightarrow> int \<Rightarrow> 16 word list \<Rightarrow> poll" where
  "a_poll st a l c rc xs =
     \<lparr>status_rc = 1, status_state = st, record_rc = 1, available = a, lost = l,
      corrupted = c, status_data16 = (\<lambda>ch idx n. (rc, drop (nat idx) xs)),
      last_error = (0, [])\<rparr>"

text \<open>A scope whose every channel has range 2 V and offset 1 V.\<close>

definition a_scope :: "poll list \<Rightarrow> scope" where
  "a_scope ps = \<lparr>channel_range = (\<lambda>_. (1, 2)), channel_offset = (\<lambda>_. (1, 1)),
                 setup_error = (0, []), polls = ps\<rparr>"

text \<open>
  Three polls without loss: the scope is still Armed, then Running with three samples,
  then Running with five.
\<close>

definition zero_loss_polls :: "poll list" where
  "zero_loss_polls = [a_poll 1 0 0 0 1 [], a_poll 3 3 0 0 1 [16384, 0, -16384],
                      a_poll 3 5 0 0 1 [32767, 1, 2, 3, 4]]"

text \<open>
  Two polls of a running scope: the first reports one lost sample and nothing
  available, the second three samples and no loss.
\<close>

definition lossy_polls :: "poll list" where
  "lossy_polls = [a_poll 3 0 1 0 1 [], a_poll 3 3 0 0 1 [16384, 0, -16384]]"

text \<open>
  Two polls for a circular drain of four samples: a running scope with three samples,
  then a scope that is Done with three more, which wrap around the end of the ring.
\<close>

definition wrap_polls :: "poll list" where
  "wrap_polls = [a_poll 3 3 0 0 1 [0, 16384, -16384], a_poll 2 3 0 0 1 [-32768, 8192, 24576]]"

text \<open>
  Two polls agree for the channel \<open>c\<close> when they differ at most in the return codes
  of the fetches made for other channels.
\<close>

definition agree_for :: "int \<Rightarrow> poll \<Rightarrow> poll \<Rightarrow> bool" where
  "agree_for c p p' \<longleftrightarrow>
     status_rc p' = status_rc p \<and> status_state p' = status_state p
     \<and> record_rc p' = record_rc p \<and> available p' = available p
     \<and> lost p' = lost p \<and> corrupted p' = corrupted p \<and> last_error p' = last_error p
     \<and> (\<forall>ch i k. snd (status_data16 p' ch i k) = snd (status_data16 p ch i k))
     \<and> (\<forall>i k. fst (status_data16 p' c i k) = fst (status_data16 p c i k))"

text \<open>
  A scope whose first channel has range 2 V and offset 1 V and whose other channels
  have range 20 V and offset 5 V, and a poll of a running scope with two samples for
  each channel whose fetch succeeds for channel 1 (the second) only.
\<close>

definition two_range_scope :: "poll list \<Rightarrow> scope" where
  "two_range_scope ps =
     \<lparr>channel_range = (\<lambda>c. if c = 0 then (1, 2) else (1, 20)),
      channel_offset = (\<lambda>c. if c = 0 then (1, 1) else (1, 5)),
      setup_error = (0, []), polls = ps\<rparr>"

definition two_channel_poll :: poll where
  "two_channel_poll =
     \<lparr>status_rc = 1, status_state = 3, record_rc = 1, available = 2, lost = 0,
      corrupted = 0,
      status_data16 = (\<lambda>ch idx n. if ch = 1 then (1, [0, 32767]) else (0, [16384, -16384])),
      last_error = (0, [])\<rparr>"

text \<open>
  The channels whose enable state the check queries: the list up to and including the
  first channel that is not enabled. \<open>enable_answers\<close> is a library that answers the
  enable query of every listed channel with success and with the state \<open>st\<close> gives.
\<close>

fun queried :: "(channel \<Rightarrow> int) \<Rightarrow> channel list \<Rightarrow> channel list" where
  "queried st [] = []"
| "queried st (ch # chs) = ch # (if st ch \<noteq> 1 then [] else queried st chs)"

definition enable_answers :: "flow_constants \<Rightarrow> library \<Rightarrow> (channel \<Rightarrow> int) \<Rightarrow> channel list \<Rightarrow> bool" where
  "enable_answers F lib st chs \<longleftrightarrow>
     (\<forall>ch\<in>set chs. ch \<noteq> NotAChannel
        \<and> (\<forall>h. return_code (lib h (enable_query F ch)) = 1
               \<and> out_nth (lib h (enable_query F ch)) 0 = st ch))"

text \<open>Constants of the two flows, for evaluation.\<close>

definition some_flow_constants :: flow_constants where
  "some_flow_constants =
     \<lparr>AnalogOutNodeCarrier = 0, funcCustom = 30, funcPlay = 31, acqmodeRecord = 3,
      AnalogOutputSignal_values = [0, 1, 2, 3, 4, 5, 6, 7, 8, 9, 28, 29, 30, 31],
      AnalogOutputIdleState_values = [0, 1, 2],
      AnalogTriggerSource_values = [0, 1, 2, 3, 4, 5, 6, 7, 8, 9, 10, 11, 12, 13, 14, 15, 17, 18, 19],
      AnalogTriggerSlope_values = [0, 1, 2]\<rparr>"

text \<open>
  A library that answers every call with success and reports every channel enabled
  but the second generator channel.
\<close>

definition wavegen2_off :: library where
  "wavegen2_off h c =
     \<lparr>return_code = 1,
      out = [if c = Call ''FDwfAnalogOutNodeEnableGet'' [IntArg 1, IntArg 0] then 0 else 1],
      message = []\<rparr>"

definition wavegen2_off_state :: "channel \<Rightarrow> int" where
  "wavegen2_off_state ch = (if ch = Output WaveGen2 then 0 else 1)"

definition a_sine :: play_args where
  "a_sine = \<lparr>signal_type = 1, frequency = 50, amplitude = 1, analog_data = None,
             play_offset = 0, phase = 0, symmetry = 50, play_duration = 0, repeat_count = 0,
             wait_duration = 0, idle_state = 2, play_trigger_source = None, trigger_slope = 0\<rparr>"

definition a_recording :: record_args where
  "a_recording = \<lparr>sampling_frequency = 50000, record_length = 0, range_volts = 5,
                  offset_volts = 0, analog_filter = 1, trigger_source = None,
                  trigger_source_position = 0, trigger_type = 0, trigger_level = 0,
                  trigger_condition = 0, trigger_timeout = 0, trigger_hysteresis = 0\<rparr>"

text \<open>numpy's truth value of an array with at most one element; longer arrays have none.\<close>

definition an_array_truth :: "real list \<Rightarrow> error + bool" where
  "an_array_truth xs =
     (case xs of [] \<Rightarrow> Inr False | [x] \<Rightarrow> Inr (x \<noteq> 0)
      | _ \<Rightarrow> Inl (ValueError ''The truth value of an array is ambiguous''))"

text \<open>
  A library whose auto-timeout call fails. It reports the error code 3 and its message
  as long as the failing call is the newest call apart from the error queries, and no
  error once another call has been made.
\<close>

definition error_query :: "native_call \<Rightarrow> bool" where
  "error_query c \<longleftrightarrow> c = Call ''FDwfGetLastError'' [] \<or> c = Call ''FDwfGetLastErrorMsg'' []"

definition stale_library :: library where
  "stale_library h c =
     (if c = Call ''FDwfAnalogInTriggerAutoTimeoutSet'' [DoubleArg 0]
      then \<lparr>return_code = 0, out = [], message = []\<rparr>
      else if take 1 (dropWhile error_query h)
                = [Call ''FDwfAnalogInTriggerAutoTimeoutSet'' [DoubleArg 0]]
      then \<lparr>return_code = 1, out = [3], message = ''timeout rejected''\<rparr>
      else \<lparr>return_code = 1, out = [0], message = []\<rparr>)"

text \<open>
  Two polls of a running scope with two samples each; the fetch of the first fails
  and copies nothing.
\<close>

definition failing_fetch_polls :: "poll list" where
  "failing_fetch_polls = [a_poll 3 2 0 0 0 [], a_poll 3 2 0 0 1 [16384, -16384]]"

text \<open>
  A library whose idle-state call fails; to the error queries it reports the code 6
  and a message.
\<close>

definition idle_rejecting_library :: library where
  "idle_rejecting_library h c =
     (if c = Call ''FDwfAnalogOutIdleSet'' [IntArg 0, IntArg 1]
      then \<lparr>return_code = 0, out = [], message = []\<rparr>
      else \<lparr>return_code = 1, out = [6], message = ''idle state rejected''\<rparr>)"

text \<open>A library that answers every call with success and writes the handle 7.\<close>

definition opening_library :: library where
  "opening_library h c = \<lparr>return_code = 1, out = [7], message = []\<rparr>"

text \<open>A library that answers every call with success and writes 1 to the out-parameter.\<close>

definition ready_library :: library where
  "ready_library h c = \<lparr>return_code = 1, out = [1], message = []\<rparr>"

text \<open>
  A poll of a running scope with two samples for each channel whose fetch fails for
  channel 1 (the second) only, reporting error 5.
\<close>

definition last_fetch_fails_poll :: poll where
  "last_fetch_fails_poll =
     \<lparr>status_rc = 1, status_state = 3, record_rc = 1, available = 2, lost = 0,
      corrupted = 0,
      status_data16 = (\<lambda>ch idx n. if ch = 1 then (0, []) else (1, [16384, -16384])),
      last_error = (5, ''fetch failed'')\<rparr>"

section \<open>Proofs\<close>

subsection \<open>The FIFO loop\<close>

declare SUCCESS_RETURN_CODE_def [simp]

lemma length_write_samples: "length (write_samples rg off xs) = length rg"
  by (auto simp: write_samples_def)

lemma length_to_volts: "length (to_volts f off rg) = length rg"
  by (simp add: to_volts_def)

lemma fifo_loop_Cons:
  "fifo_loop K ch n s (p # ps) =
     (if cSamples s < n then
        if status_rc p \<noteq> 1 then Some (Inl (raise_dwf (last_error p)))
        else if cSamples s = 0 \<and> not_started K (status_state p)
        then fifo_loop K ch n (s\<lparr>dwf_error := last_error p\<rparr>) ps
        else if record_rc p \<noteq> 1 then Some (Inl (raise_dwf (last_error p)))
        else if available p = 0 then fifo_loop K ch n (after_record s p) ps
        else fifo_loop K ch n (after_fetch ch n (after_record s p) p) ps
      else Some (Inr s))"
  by (simp add: Let_def after_record_def after_fetch_def clamped_def)

lemma fifo_loop_ConsD:
  assumes "fifo_loop K ch n s (p # ps) = Some (Inr s')"
  shows "s' = s
     \<or> fifo_loop K ch n (s\<lparr>dwf_error := last_error p\<rparr>) ps = Some (Inr s')
     \<or> fifo_loop K ch n (after_record s p) ps = Some (Inr s')
     \<or> fifo_loop K ch n (after_fetch ch n (after_record s p) p) ps = Some (Inr s')"
  using assms by (simp add: fifo_loop_Cons del: fifo_loop.simps split: if_splits)

lemma fifo_loop_length:
  "fifo_loop K ch n s ps = Some (Inr s') \<Longrightarrow> length (rgSamples s') = length (rgSamples s)"
proof (induction ps arbitrary: s)
  case Nil
  then show ?case by (simp split: if_splits)
next
  case (Cons p ps)
  from fifo_loop_ConsD[OF Cons.prems] show ?case
    by (auto simp: after_record_def after_fetch_def length_write_samples dest!: Cons.IH)
qed

lemma fifo_loop_no_loss:
  assumes "fifo_loop K ch n s ps = Some (Inr s')"
    and "\<forall>p\<in>set ps. lost p = 0 \<and> corrupted p = 0"
    and "cLost s = 0 \<and> cCorrupted s = 0"
  shows "cLost s' = 0 \<and> cCorrupted s' = 0"
  using assms
proof (induction ps arbitrary: s)
  case Nil
  then show ?case by (simp split: if_splits)
next
  case (Cons p ps)
  have rest: "\<forall>p\<in>set ps. lost p = 0 \<and> corrupted p = 0" using Cons.prems(2) by simp
  have here: "lost p = 0 \<and> corrupted p = 0" using Cons.prems(2) by simp
  from fifo_loop_ConsD[OF Cons.prems(1)] consider
      "s' = s"
    | "fifo_loop K ch n (s\<lparr>dwf_error := last_error p\<rparr>) ps = Some (Inr s')"
    | "fifo_loop K ch n (after_record s p) ps = Some (Inr s')"
    | "fifo_loop K ch n (after_fetch ch n (after_record s p) p) ps = Some (Inr s')"
    by blast
  then show ?case
  proof cases
    case 1
    then show ?thesis using Cons.prems(3) by simp
  next
    case 2
    then show ?thesis using Cons.IH[OF 2 rest] Cons.prems(3) by simp
  next
    case 3
    then show ?thesis using Cons.IH[OF 3 rest] here by (simp add: after_record_def)
  next
    case 4
    then show ?thesis using Cons.IH[OF 4 rest] here by (simp add: after_record_def after_fetch_def)
  qed
qed

lemma acquired_nonneg: "\<forall>p\<in>set ps. 0 \<le> available p \<Longrightarrow> 0 \<le> acquired K ps"
  by (auto simp: acquired_def intro!: sum_list_nonneg)

lemma acquired_Cons:
  "acquired K (p # ps) = (if not_started K (status_state p) then 0 else available p) + acquired K ps"
  by (simp add: acquired_def)

lemma fifo_loop_progress:
  assumes "\<forall>p\<in>set ps. poll_ok ch p \<and> lost p = 0"
    and "0 \<le> cSamples s"
    and "n \<le> cSamples s + acquired K ps"
    and "cSamples s = 0 \<or> fetch_result s = Some 1"
    and "0 < n"
  shows "\<exists>s'. fifo_loop K ch n s ps = Some (Inr s') \<and> fetch_result s' = Some 1"
  using assms
proof (induction ps arbitrary: s)
  case Nil
  then show ?case by (auto simp: acquired_def)
next
  case (Cons p ps)
  have rest: "\<forall>p\<in>set ps. poll_ok ch p \<and> lost p = 0"
    using Cons.prems(1) by simp
  have here: "status_rc p = 1" "record_rc p = 1" "lost p = 0" "0 \<le> available p"
    "\<And>i c. fst (status_data16 p ch i c) = 1"
    using Cons.prems(1) by (simp_all add: poll_ok_def)
  have nn: "0 \<le> acquired K ps" using rest by (simp add: acquired_nonneg poll_ok_def)
  show ?case
  proof (cases "cSamples s < n")
    case False
    with Cons.prems show ?thesis by (auto simp: fifo_loop_Cons simp del: fifo_loop.simps)
  next
    case running: True
    show ?thesis
    proof (cases "cSamples s = 0 \<and> not_started K (status_state p)")
      case True
      let ?s = "s\<lparr>dwf_error := last_error p\<rparr>"
      have "n \<le> cSamples ?s + acquired K ps"
        using Cons.prems(3) True by (simp add: acquired_Cons)
      from Cons.IH[OF rest _ this _ Cons.prems(5)] Cons.prems(2,4) True running here
      show ?thesis by (simp add: fifo_loop_Cons del: fifo_loop.simps)
    next
      case False
      show ?thesis
      proof (cases "available p = 0")
        case True
        let ?s = "after_record s p"
        have a: "cSamples ?s = cSamples s" "fetch_result ?s = fetch_result s"
          using here by (simp_all add: after_record_def)
        have "n \<le> cSamples ?s + acquired K ps"
          using Cons.prems(3) True a by (simp add: acquired_Cons split: if_splits)
        from Cons.IH[OF rest _ this _ Cons.prems(5)] Cons.prems(2,4) a False True running here
        show ?thesis by (auto simp add: fifo_loop_Cons simp del: fifo_loop.simps)
      next
        case avail: False
        let ?s = "after_fetch ch n (after_record s p) p"
        have c: "cSamples ?s = (if cSamples s + available p > n then n else cSamples s + available p)"
          using here by (simp add: after_record_def after_fetch_def clamped_def)
        have f: "fetch_result ?s = Some 1"
          using here by (simp add: after_fetch_def)
        have b: "n \<le> cSamples ?s + acquired K ps"
          using Cons.prems(3) nn here c by (auto simp: acquired_Cons split: if_splits)
        have d: "0 \<le> cSamples ?s" using c Cons.prems(2,5) here by auto
        from Cons.IH[OF rest d b _ Cons.prems(5)] f False avail running here
        show ?thesis by (auto simp add: fifo_loop_Cons simp del: fifo_loop.simps)
      qed
    qed
  qed
qed

lemma fill_recorded_samples_returns:
  assumes "fill_recorded_samples K dev ch n = Some (Inr (ws, vs))"
  shows "\<exists>s. 0 \<le> n
      \<and> fst (channel_range dev (input_value ch)) = 1
      \<and> fst (channel_offset dev (input_value ch)) = 1
      \<and> fifo_loop K (input_value ch) n (fifo_init dev n) (polls dev) = Some (Inr s)
      \<and> fetch_result s = Some 1
      \<and> ws = loss_warnings (cLost s) (cCorrupted s)
      \<and> vs = to_volts (snd (channel_range dev (input_value ch)) / 65536)
                (snd (channel_offset dev (input_value ch))) (rgSamples s)"
  using assms
  by (auto simp: fill_recorded_samples_def get_analog_input_range_def get_analog_input_offset_def
        fifo_finish_def Let_def
      split: if_splits sum.splits option.splits prod.splits)

lemmas fifo_eval =
  fill_recorded_samples_def get_analog_input_range_def get_analog_input_offset_def
  fifo_finish_def loss_warnings_def a_scope_def a_poll_def fifo_init_def
  sdk_constants_def not_started_def Let_def write_samples_def fetch16_def to_volts_def
  raise_dwf_def


subsection \<open>FIFO drain without loss\<close>

text \<open>
  C2. A FIFO drain \<^verbatim>\<open>fill_recorded_samples(input_channel, count)\<close> with
  \<open>count > 0\<close> whose every poll reports \<open>lost = 0\<close> and \<open>corrupted = 0\<close>: whenever the
  call returns, it returns exactly \<open>count\<close> voltages and has logged no loss or
  corruption warning; and it does return, with no warning and \<open>count\<close> voltages, when
  the instrument answers every call with success and its polls offer at least \<open>count\<close>
  samples (\<open>fifo_device_ok\<close>).
\<close>

theorem fifo_zero_loss:
  assumes "0 < samples_count"
    and "\<forall>p\<in>set (polls dev). lost p = 0 \<and> corrupted p = 0"
  shows "(\<forall>ws vs. fill_recorded_samples K dev ch samples_count = Some (Inr (ws, vs))
            \<longrightarrow> ws = [] \<and> length vs = nat samples_count)
       \<and> (fifo_device_ok K dev ch samples_count
            \<longrightarrow> (\<exists>vs. fill_recorded_samples K dev ch samples_count = Some (Inr ([], vs))
                    \<and> length vs = nat samples_count))"
proof (intro conjI allI impI)
  fix ws vs
  assume r: "fill_recorded_samples K dev ch samples_count = Some (Inr (ws, vs))"
  from fill_recorded_samples_returns[OF r] obtain s where
    s: "fifo_loop K (input_value ch) samples_count (fifo_init dev samples_count) (polls dev)
          = Some (Inr s)"
    and ws: "ws = loss_warnings (cLost s) (cCorrupted s)"
    and vs: "vs = to_volts (snd (channel_range dev (input_value ch)) / 65536)
                (snd (channel_offset dev (input_value ch))) (rgSamples s)"
    by blast
  have "cLost s = 0 \<and> cCorrupted s = 0"
    by (rule fifo_loop_no_loss[OF s assms(2)]) (simp add: fifo_init_def)
  then show "ws = []" by (simp add: ws loss_warnings_def)
  show "length vs = nat samples_count"
    using fifo_loop_length[OF s] by (simp add: vs length_to_volts fifo_init_def)
next
  assume ok: "fifo_device_ok K dev ch samples_count"
  let ?ch = "input_value ch"
  have polls_ok: "\<forall>p\<in>set (polls dev). poll_ok ?ch p \<and> lost p = 0"
    using ok assms(2) by (simp add: fifo_device_ok_def list_all_iff)
  have "\<exists>s. fifo_loop K ?ch samples_count (fifo_init dev samples_count) (polls dev) = Some (Inr s)
          \<and> fetch_result s = Some 1"
    by (rule fifo_loop_progress[OF polls_ok _ _ _ assms(1)])
       (use ok in \<open>simp_all add: fifo_init_def fifo_device_ok_def\<close>)
  then obtain s where
    s: "fifo_loop K ?ch samples_count (fifo_init dev samples_count) (polls dev) = Some (Inr s)"
    and f: "fetch_result s = Some 1" by blast
  have z: "cLost s = 0 \<and> cCorrupted s = 0"
    by (rule fifo_loop_no_loss[OF s assms(2)]) (simp add: fifo_init_def)
  obtain r1 r2 where rr: "channel_range dev ?ch = (1, r1)" "channel_offset dev ?ch = (1, r2)"
    using ok by (cases "channel_range dev ?ch"; cases "channel_offset dev ?ch")
                (simp add: fifo_device_ok_def)
  have "fill_recorded_samples K dev ch samples_count
          = Some (Inr ([], to_volts (r1 / 65536) r2 (rgSamples s)))"
    using assms(1) s f z rr
    by (simp add: fill_recorded_samples_def get_analog_input_range_def
          get_analog_input_offset_def fifo_finish_def loss_warnings_def)
  moreover have "length (to_volts (r1 / 65536) r2 (rgSamples s)) = nat samples_count"
    using fifo_loop_length[OF s] by (simp add: length_to_volts fifo_init_def)
  ultimately show "\<exists>vs. fill_recorded_samples K dev ch samples_count = Some (Inr ([], vs))
                    \<and> length vs = nat samples_count" by blast
qed



text \<open>
  The theorem at a concrete run: four samples asked from the script
  \<open>zero_loss_polls\<close>, range 2 V and offset 1 V.
\<close>

theorem fifo_zero_loss_witness:
  "(0::int) < 4
   \<and> list_all (\<lambda>p. lost p = 0 \<and> corrupted p = 0) (polls (a_scope zero_loss_polls))
   \<and> fifo_device_ok sdk_constants (a_scope zero_loss_polls) Channel2 4
   \<and> fill_recorded_samples sdk_constants (a_scope zero_loss_polls) Channel2 4
       = Some (Inr ([], [3/2, 1, 1/2, 65535/32768]))"
proof -
  have h1: "(0::int) < 4" by simp
  have h2: "\<forall>p\<in>set (polls (a_scope zero_loss_polls)). lost p = 0 \<and> corrupted p = 0"
    by (simp add: a_scope_def zero_loss_polls_def a_poll_def)
  have h3: "fifo_device_ok sdk_constants (a_scope zero_loss_polls) Channel2 4"
    by (simp add: fifo_device_ok_def poll_ok_def acquired_def a_scope_def zero_loss_polls_def
          a_poll_def sdk_constants_def not_started_def)
  have ev: "fill_recorded_samples sdk_constants (a_scope zero_loss_polls) Channel2 4
       = Some (Inr ([], [3/2, 1, 1/2, 65535/32768]))"
    by (simp add: fifo_eval zero_loss_polls_def)
  from fifo_zero_loss[OF h1 h2, of sdk_constants Channel2] h3 ev
  show ?thesis using h2 by (simp add: list_all_iff)
qed


subsection \<open>FIFO drain of zero samples\<close>

text \<open>
  C10. \<^verbatim>\<open>fill_recorded_samples(input_channel, 0)\<close> never returns a sample sequence,
  and it does not keep polling either: the call ends with an exception for every
  instrument. When the range and offset queries before the loop succeed, the loop body
  is not executed (the loop hands back the initial state, in which \<^verbatim>\<open>result\<close> is
  unbound) and the exception is the \<^verbatim>\<open>UnboundLocalError\<close> of the post-loop test of
  \<^verbatim>\<open>result\<close>, which is not a \<^verbatim>\<open>PyDwfError\<close>.
\<close>

theorem fifo_zero_count_unbound:
  "fill_recorded_samples K dev ch 0 \<noteq> None
   \<and> (\<forall>r. fill_recorded_samples K dev ch 0 \<noteq> Some (Inr r))
   \<and> (fst (channel_range dev (input_value ch)) = SUCCESS_RETURN_CODE
        \<and> fst (channel_offset dev (input_value ch)) = SUCCESS_RETURN_CODE
      \<longrightarrow> fifo_loop K (input_value ch) 0 (fifo_init dev 0) (polls dev) = Some (Inr (fifo_init dev 0))
        \<and> fill_recorded_samples K dev ch 0 = Some (Inl (UnboundLocalError ''result'')))"
proof -
  have loop: "fifo_loop K (input_value ch) 0 (fifo_init dev 0) (polls dev)
                = Some (Inr (fifo_init dev 0))"
    by (cases "polls dev") (simp_all add: fifo_init_def del: fifo_loop.simps(2) add: fifo_loop_Cons)
  have unbound: "fetch_result (fifo_init dev 0) = None"
    by (simp add: fifo_init_def)
  show ?thesis
    by (auto simp: fill_recorded_samples_def get_analog_input_range_def
          get_analog_input_offset_def loop fifo_finish_def unbound
        split: prod.splits sum.splits)
qed


text \<open>The theorem at a scope whose two queries succeed.\<close>

theorem fifo_zero_count_unbound_witness:
  "fst (channel_range (a_scope zero_loss_polls) (input_value Channel1)) = SUCCESS_RETURN_CODE
   \<and> fst (channel_offset (a_scope zero_loss_polls) (input_value Channel1)) = SUCCESS_RETURN_CODE
   \<and> fill_recorded_samples sdk_constants (a_scope zero_loss_polls) Channel1 0
       = Some (Inl (UnboundLocalError ''result''))"
  using fifo_zero_count_unbound[of sdk_constants "a_scope zero_loss_polls" Channel1]
  by (simp add: a_scope_def)


subsection \<open>Raw samples to volts\<close>

lemma to_volts_spec:
  "to_volts (rng / 65536) off rg = map (\<lambda>v. spec_voltage rng off (sint v)) rg"
  by (simp add: to_volts_def spec_voltage_def)


text \<open>
  C6. Whenever the FIFO drain returns, its result has one voltage for each of the
  \<open>count\<close> slots of the raw array the loop filled, and the voltage of slot \<open>i\<close> is
  \<open>r * (range / 65536) + offset\<close> for the raw value \<open>r\<close> of that slot (read as a signed
  16-bit integer), with the range and offset queried from the channel. For a range
  above zero the conversion is monotonically non-decreasing in \<open>r\<close>. The conversion
  is a function of range, offset and \<open>r\<close>, so it is deterministic.
\<close>

theorem drain_conversion:
  "(\<forall>ws vs. fill_recorded_samples K dev ch n = Some (Inr (ws, vs)) \<longrightarrow>
      (\<exists>s. fifo_loop K (input_value ch) n (fifo_init dev n) (polls dev) = Some (Inr s)
         \<and> length (rgSamples s) = nat n \<and> length vs = nat n
         \<and> (\<forall>i < nat n. vs ! i = spec_voltage (snd (channel_range dev (input_value ch)))
                              (snd (channel_offset dev (input_value ch)))
                              (sint (rgSamples s ! i)))))
   \<and> (\<forall>rng off r r'. 0 < rng \<and> r \<le> r' \<longrightarrow> spec_voltage rng off r \<le> spec_voltage rng off r')"
proof (intro conjI allI impI)
  fix ws vs
  assume r: "fill_recorded_samples K dev ch n = Some (Inr (ws, vs))"
  from fill_recorded_samples_returns[OF r] obtain s where
    s: "fifo_loop K (input_value ch) n (fifo_init dev n) (polls dev) = Some (Inr s)"
    and vs: "vs = to_volts (snd (channel_range dev (input_value ch)) / 65536)
                (snd (channel_offset dev (input_value ch))) (rgSamples s)"
    by blast
  have len: "length (rgSamples s) = nat n"
    using fifo_loop_length[OF s] by (simp add: fifo_init_def)
  show "\<exists>s. fifo_loop K (input_value ch) n (fifo_init dev n) (polls dev) = Some (Inr s)
         \<and> length (rgSamples s) = nat n \<and> length vs = nat n
         \<and> (\<forall>i < nat n. vs ! i = spec_voltage (snd (channel_range dev (input_value ch)))
                              (snd (channel_offset dev (input_value ch)))
                              (sint (rgSamples s ! i)))"
    using s len by (intro exI[of _ s]) (simp add: vs to_volts_spec)
next
  fix rng off :: real and r r' :: int
  assume "0 < rng \<and> r \<le> r'"
  then show "spec_voltage rng off r \<le> spec_voltage rng off r'"
    by (simp add: spec_voltage_def mult_right_mono)
qed


text \<open>The theorem at the run of \<open>zero_loss_polls\<close> and at two of its raw values.\<close>

theorem drain_conversion_witness:
  "fill_recorded_samples sdk_constants (a_scope zero_loss_polls) Channel2 4
       = Some (Inr ([], [3/2, 1, 1/2, 65535/32768]))
   \<and> [spec_voltage 2 1 16384, spec_voltage 2 1 0, spec_voltage 2 1 (-16384), spec_voltage 2 1 32767]
       = [3/2, 1, 1/2, 65535/32768]
   \<and> (0::real) < 2 \<and> (-16384::int) \<le> 0 \<and> spec_voltage 2 1 (-16384) \<le> spec_voltage 2 1 0"
proof -
  have ev: "fill_recorded_samples sdk_constants (a_scope zero_loss_polls) Channel2 4
       = Some (Inr ([], [3/2, 1, 1/2, 65535/32768]))"
    by (simp add: fifo_eval zero_loss_polls_def)
  have m: "spec_voltage 2 1 (-16384) \<le> spec_voltage 2 1 0"
    using drain_conversion[of sdk_constants "a_scope zero_loss_polls" Channel2 4] by simp
  show ?thesis using ev m by (simp add: spec_voltage_def)
qed


subsection \<open>FIFO drain with loss\<close>

text \<open>
  C1, evaluated at a run that loses a sample. The record counters are overwritten at
  every poll, so the test after the loop sees the counters of the last poll only: with
  one sample lost at the first poll and none at the second, the call returns four
  voltages and no warning.
\<close>

theorem fifo_loss_not_reported:
  "sum_list (map lost lossy_polls) = 1
   \<and> fill_recorded_samples sdk_constants (a_scope lossy_polls) Channel1 4
       = Some (Inr ([], [1, 3/2, 1, 1/2]))"
  by (simp add: fifo_eval lossy_polls_def)

subsection \<open>Circular drain\<close>

declare circ_fetch.simps [simp del]

lemma circ_fetch_invariant:
  assumes "0 < n" and "0 \<le> iSample s \<and> iSample s < n"
  shows "0 \<le> iSample (circ_fetch n p ch a b s) \<and> iSample (circ_fetch n p ch a b s) < n
       \<and> length (rgSamples (circ_fetch n p ch a b s)) = length (rgSamples s)
       \<and> cLost (circ_fetch n p ch a b s) = cLost s
       \<and> cCorrupted (circ_fetch n p ch a b s) = cCorrupted s"
  using assms
proof (induction n p ch a b s rule: circ_fetch.induct)
  case (1 samples_count p channel cAvailable iBuffer s)
  show ?case
  proof (cases "cAvailable > 0")
    case False
    then show ?thesis using "1.prems" by (subst (1 2 3 4 5) circ_fetch.simps) simp
  next
    case True
    define n where "n = (if iSample s + cAvailable > samples_count
                 then samples_count - iSample s else cAvailable)"
    define s1 where "s1 = s\<lparr>cSamples := n,
                   rgSamples := write_samples (rgSamples s) (iSample s) (fetch16 p channel iBuffer n),
                   fetch_result := Some (fst (status_data16 p channel iBuffer n)),
                   iSample := (iSample s + n) mod samples_count\<rparr>"
    have step: "circ_fetch samples_count p channel cAvailable iBuffer s
                  = circ_fetch samples_count p channel (cAvailable - n) (iBuffer + n) s1"
      using True "1.prems"(1) by (subst circ_fetch.simps) (simp add: n_def s1_def Let_def)
    have inv: "0 \<le> iSample s1 \<and> iSample s1 < samples_count"
      using "1.prems"(1) by (simp add: s1_def)
    have ih: "0 \<le> iSample (circ_fetch samples_count p channel (cAvailable - n) (iBuffer + n) s1)
       \<and> iSample (circ_fetch samples_count p channel (cAvailable - n) (iBuffer + n) s1) < samples_count
       \<and> length (rgSamples (circ_fetch samples_count p channel (cAvailable - n) (iBuffer + n) s1))
            = length (rgSamples s1)
       \<and> cLost (circ_fetch samples_count p channel (cAvailable - n) (iBuffer + n) s1) = cLost s1
       \<and> cCorrupted (circ_fetch samples_count p channel (cAvailable - n) (iBuffer + n) s1) = cCorrupted s1"
      using "1.IH"[OF _ n_def s1_def "1.prems"(1) inv] True "1.prems"(1) by simp
    show ?thesis unfolding step using ih by (simp add: s1_def length_write_samples)
  qed
qed

lemma circ_loop_returns:
  assumes "circ_loop ch n s ps = Some (Inr s')" and "0 \<le> n"
  shows "0 \<le> iSample s' \<and> iSample s' < n
       \<and> length (rgSamples s') = length (rgSamples s)
       \<and> (\<exists>p\<in>set ps. status_state p = 2)"
  using assms
proof (induction ps arbitrary: s)
  case Nil
  then show ?case by simp
next
  case (Cons p ps)
  from Cons.prems have pos: "0 < n" by (auto split: if_splits)
  define s1 where "s1 = s\<lparr>cLost := lost p, cCorrupted := corrupted p, dwf_error := last_error p,
                   iSample := (iSample s + lost p) mod n\<rparr>"
  define s2 where "s2 = circ_fetch n p ch (available p) 0 s1"
  have inv1: "0 \<le> iSample s1 \<and> iSample s1 < n" using pos by (simp add: s1_def)
  have inv2: "0 \<le> iSample s2 \<and> iSample s2 < n \<and> length (rgSamples s2) = length (rgSamples s)"
    using circ_fetch_invariant[OF pos inv1, of p ch "available p" 0] by (simp add: s2_def s1_def)
  from Cons.prems(1) consider "status_state p = 2" "s' = s2"
    | "circ_loop ch n s2 ps = Some (Inr s')"
    by (auto simp: Let_def s1_def[symmetric] s2_def[symmetric] split: if_splits option.splits)
  then show ?case
  proof cases
    case 1
    then show ?thesis using inv2 by simp
  next
    case 2
    from Cons.IH[OF 2 Cons.prems(2)] inv2 show ?thesis by simp
  qed
qed

lemma fill_recorded_samples_2_returns:
  assumes "fill_recorded_samples_2 dev ch n = Some (Inr (ws, vs))"
  shows "\<exists>s. 0 \<le> n
      \<and> circ_loop (input_value ch) n (circ_init dev n) (polls dev) = Some (Inr s)
      \<and> ws = loss_warnings (cLost s) (cCorrupted s)
      \<and> vs = to_volts (snd (channel_range dev (input_value ch)) / 65536)
                (snd (channel_offset dev (input_value ch))) (align_recorded s)"
  using assms
  by (auto simp: fill_recorded_samples_2_def get_analog_input_range_def
        get_analog_input_offset_def Let_def
      split: if_splits sum.splits option.splits prod.splits)

text \<open>
  C3. Whenever the circular drain \<^verbatim>\<open>fill_recorded_samples_2(input_channel, count)\<close>
  returns, its polling loop was left at a poll whose state is Done (2), the ring has
  \<open>count\<close> slots and the final write cursor \<open>c = iSample\<close> lies in \<open>0 \<le> c < count\<close>. For
  \<open>0 < c\<close> the returned sequence is the conversion of \<open>ring[c:] + ring[:c]\<close>; for
  \<open>c = 0\<close> it is the conversion of the ring as it is.
\<close>

theorem circular_drain_rotation:
  "\<forall>ws vs. fill_recorded_samples_2 dev ch n = Some (Inr (ws, vs)) \<longrightarrow>
     (\<exists>s. circ_loop (input_value ch) n (circ_init dev n) (polls dev) = Some (Inr s)
        \<and> (\<exists>p\<in>set (polls dev). status_state p = 2)
        \<and> length (rgSamples s) = nat n \<and> 0 \<le> iSample s \<and> iSample s < n
        \<and> (0 < iSample s \<longrightarrow>
              vs = to_volts (snd (channel_range dev (input_value ch)) / 65536)
                     (snd (channel_offset dev (input_value ch)))
                     (drop (nat (iSample s)) (rgSamples s) @ take (nat (iSample s)) (rgSamples s)))
        \<and> (iSample s = 0 \<longrightarrow>
              vs = to_volts (snd (channel_range dev (input_value ch)) / 65536)
                     (snd (channel_offset dev (input_value ch))) (rgSamples s)))"
proof (intro allI impI)
  fix ws vs
  assume r: "fill_recorded_samples_2 dev ch n = Some (Inr (ws, vs))"
  from fill_recorded_samples_2_returns[OF r] obtain s where
    n: "0 \<le> n"
    and s: "circ_loop (input_value ch) n (circ_init dev n) (polls dev) = Some (Inr s)"
    and vs: "vs = to_volts (snd (channel_range dev (input_value ch)) / 65536)
                (snd (channel_offset dev (input_value ch))) (align_recorded s)"
    by blast
  from circ_loop_returns[OF s n]
  have inv: "0 \<le> iSample s" "iSample s < n" "length (rgSamples s) = nat n"
    "\<exists>p\<in>set (polls dev). status_state p = 2"
    by (simp_all add: circ_init_def)
  have rot: "0 < iSample s \<Longrightarrow> align_recorded s
      = drop (nat (iSample s)) (rgSamples s) @ take (nat (iSample s)) (rgSamples s)"
    by (simp add: align_recorded_def slice_from_def slice_upto_def)
  have norot: "iSample s = 0 \<Longrightarrow> align_recorded s = rgSamples s"
    by (simp add: align_recorded_def)
  show "\<exists>s. circ_loop (input_value ch) n (circ_init dev n) (polls dev) = Some (Inr s)
        \<and> (\<exists>p\<in>set (polls dev). status_state p = 2)
        \<and> length (rgSamples s) = nat n \<and> 0 \<le> iSample s \<and> iSample s < n
        \<and> (0 < iSample s \<longrightarrow>
              vs = to_volts (snd (channel_range dev (input_value ch)) / 65536)
                     (snd (channel_offset dev (input_value ch)))
                     (drop (nat (iSample s)) (rgSamples s) @ take (nat (iSample s)) (rgSamples s)))
        \<and> (iSample s = 0 \<longrightarrow>
              vs = to_volts (snd (channel_range dev (input_value ch)) / 65536)
                     (snd (channel_offset dev (input_value ch))) (rgSamples s))"
    using s inv rot norot by (intro exI[of _ s]) (simp add: vs)
qed

lemma a_scope_simps:
  "channel_range (a_scope ps) c = (1, 2)" "channel_offset (a_scope ps) c = (1, 1)"
  "setup_error (a_scope ps) = (0, [])" "polls (a_scope ps) = ps"
  by (simp_all add: a_scope_def)

lemma wrap_loop:
  "circ_loop 0 4 (circ_init (a_scope wrap_polls) 4) wrap_polls
     = Some (Inr \<lparr>cSamples = 2, cLost = 0, cCorrupted = 0, fetch_result = Some 1,
                  dwf_error = (0, []), rgSamples = [8192, 24576, -16384, -32768], iSample = 2\<rparr>)"
  by (simp add: circ_init_def a_scope_simps wrap_polls_def a_poll_def Let_def circ_fetch.simps
        write_samples_def fetch16_def)

lemma wrap_eval:
  "fill_recorded_samples_2 (a_scope wrap_polls) Channel1 4 = Some (Inr ([], [1/2, 0, 5/4, 7/4]))"
  by (simp add: fill_recorded_samples_2_def get_analog_input_range_def get_analog_input_offset_def
        a_scope_simps wrap_loop loss_warnings_def align_recorded_def slice_from_def slice_upto_def
        to_volts_def)

text \<open>
  The theorem at the run of \<open>wrap_polls\<close>: the loop ends with the cursor at 2, and
  the four voltages are those of the ring read from slot 2 onwards.
\<close>

theorem circular_drain_rotation_witness:
  "fill_recorded_samples_2 (a_scope wrap_polls) Channel1 4 = Some (Inr ([], [1/2, 0, 5/4, 7/4]))
   \<and> (\<exists>s. circ_loop (input_value Channel1) 4 (circ_init (a_scope wrap_polls) 4)
             (polls (a_scope wrap_polls)) = Some (Inr s)
          \<and> iSample s = 2 \<and> rgSamples s = [8192, 24576, -16384, -32768]
          \<and> [1/2, 0, 5/4, 7/4] = to_volts (2 / 65536) 1
               (drop 2 (rgSamples s) @ take 2 (rgSamples s)))"
proof -
  from circular_drain_rotation[of "a_scope wrap_polls" Channel1 4] wrap_eval
  obtain s where
    s: "circ_loop (input_value Channel1) 4 (circ_init (a_scope wrap_polls) 4)
             (polls (a_scope wrap_polls)) = Some (Inr s)"
    and v: "0 < iSample s \<longrightarrow> [1/2, 0, 5/4, 7/4]
             = to_volts (snd (channel_range (a_scope wrap_polls) (input_value Channel1)) / 65536)
                     (snd (channel_offset (a_scope wrap_polls) (input_value Channel1)))
                     (drop (nat (iSample s)) (rgSamples s) @ take (nat (iSample s)) (rgSamples s))"
    by blast
  from s have "s = \<lparr>cSamples = 2, cLost = 0, cCorrupted = 0, fetch_result = Some 1,
                  dwf_error = (0, []), rgSamples = [8192, 24576, -16384, -32768], iSample = 2\<rparr>"
    by (simp add: wrap_loop a_scope_simps)
  then have i: "iSample s = 2" "rgSamples s = [8192, 24576, -16384, -32768]"
    by simp_all
  from v i have "[1/2, 0, 5/4, 7/4] = to_volts (2 / 65536) 1 (drop 2 (rgSamples s) @ take 2 (rgSamples s))"
    by (simp add: a_scope_simps)
  with s i wrap_eval show ?thesis by blast
qed

subsection \<open>Multi-channel FIFO drain\<close>

lemma fetch16_agree: "agree_for c p p' \<Longrightarrow> fetch16 p' ch i k = fetch16 p ch i k"
  by (simp add: fetch16_def agree_for_def)

lemma fetch_channels_agree:
  assumes "agree_for c p p'" and "chs \<noteq> []" and "input_value (last chs) = c"
  shows "fetch_channels p' off k chs i (s\<lparr>fetch_result := x\<rparr>) = fetch_channels p off k chs i s"
  using assms(2,3)
proof (induction chs arbitrary: i s x)
  case Nil
  then show ?case by simp
next
  case (Cons ch chs)
  show ?case
  proof (cases "chs = []")
    case True
    then have "input_value ch = c" using Cons.prems by simp
    then have "fst (status_data16 p' (input_value ch) 0 k) = fst (status_data16 p (input_value ch) 0 k)"
      using assms(1) by (simp add: agree_for_def)
    then show ?thesis using True by (simp add: fetch16_agree[OF assms(1)])
  next
    case False
    then have l: "input_value (last chs) = c" using Cons.prems by simp
    have "fetch_channels p' off k (ch # chs) i (s\<lparr>fetch_result := x\<rparr>)
        = fetch_channels p' off k chs (Suc i)
            ((s\<lparr>channels_data := (channels_data s)
                 [i := write_samples (channels_data s ! i) off (fetch16 p (input_value ch) 0 k)],
               fetch_result := Some (fst (status_data16 p (input_value ch) 0 k))\<rparr>)
              \<lparr>fetch_result := Some (fst (status_data16 p' (input_value ch) 0 k))\<rparr>)"
      by (simp add: fetch16_agree[OF assms(1)])
    also have "\<dots> = fetch_channels p off k chs (Suc i)
            (s\<lparr>channels_data := (channels_data s)
                 [i := write_samples (channels_data s ! i) off (fetch16 p (input_value ch) 0 k)],
               fetch_result := Some (fst (status_data16 p (input_value ch) 0 k))\<rparr>)"
      by (rule Cons.IH[OF False l])
    finally show ?thesis by simp
  qed
qed

lemma fetch_channels_agree':
  assumes "agree_for c p p'" and "chs \<noteq> []" and "input_value (last chs) = c"
  shows "fetch_channels p' off k chs i s = fetch_channels p off k chs i s"
  using fetch_channels_agree[OF assms, where s = s and x = "fetch_result s" and off = off
      and k = k and i = i] by simp

lemma fetch_channels_result:
  "chs \<noteq> [] \<Longrightarrow> fetch_result (fetch_channels p off k chs i s)
     = Some (fst (status_data16 p (input_value (last chs)) 0 k))"
  by (induction chs arbitrary: i s) auto

lemma fetch_channels_other:
  "cSamples (fetch_channels p off k chs i s) = cSamples s
   \<and> cLost (fetch_channels p off k chs i s) = cLost s
   \<and> cCorrupted (fetch_channels p off k chs i s) = cCorrupted s
   \<and> dwf_error (fetch_channels p off k chs i s) = dwf_error s
   \<and> length (channels_data (fetch_channels p off k chs i s)) = length (channels_data s)"
  by (induction chs arbitrary: i s) auto

lemma multi_loop_agree:
  assumes "list_all2 (agree_for c) ps ps'" and "chs \<noteq> []" and "input_value (last chs) = c"
  shows "multi_loop K chs n s ps' = multi_loop K chs n s ps"
  using assms(1)
proof (induction ps ps' arbitrary: s rule: list_all2_induct)
  case Nil
  then show ?case by simp
next
  case (Cons p ps p' ps')
  have a: "status_rc p' = status_rc p" "status_state p' = status_state p"
     "record_rc p' = record_rc p" "available p' = available p"
     "lost p' = lost p" "corrupted p' = corrupted p" "last_error p' = last_error p"
    using Cons.hyps(1) by (simp_all add: agree_for_def)
  show ?case
    by (simp add: a Let_def Cons.IH fetch_channels_agree'[OF Cons.hyps(1) assms(2,3)])
qed

lemma fill_on_channels_returns:
  assumes "fill_recorded_samples_on_channels K dev chs n = Some (Inr (ws, vss))"
  shows "\<exists>s. chs \<noteq> [] \<and> 0 \<le> n
      \<and> multi_loop K chs n (multi_init dev chs n) (polls dev) = Some (Inr s)
      \<and> fetch_result s = Some 1
      \<and> ws = loss_warnings (cLost s) (cCorrupted s)
      \<and> vss = map (to_volts (snd (channel_range dev (input_value (hd chs))) / 65536)
                (snd (channel_offset dev (input_value (hd chs))))) (channels_data s)"
  using assms
  by (auto simp: fill_recorded_samples_on_channels_def get_analog_input_range_def
        get_analog_input_offset_def multi_finish_def Let_def
      split: if_splits sum.splits option.splits prod.splits list.splits)

lemma multi_loop_done:
  "\<not> cSamples s < n \<Longrightarrow> multi_loop K chs n s ps = Some (Inr s)"
  by (cases ps) simp_all

lemma multi_loop_skipped:
  assumes "\<forall>q\<in>set ps. status_rc q = 1 \<and> not_started K (status_state q)"
    and "cSamples s = 0" and "0 < n"
  shows "\<exists>e. multi_loop K chs n s (ps @ rest) = multi_loop K chs n (s\<lparr>dwf_error := e\<rparr>) rest"
  using assms(1,2)
proof (induction ps arbitrary: s)
  case Nil
  have "s\<lparr>dwf_error := dwf_error s\<rparr> = s" by simp
  then show ?case by (intro exI[of _ "dwf_error s"]) simp
next
  case (Cons q ps)
  have q: "status_rc q = 1" "not_started K (status_state q)" using Cons.prems(1) by simp_all
  have rest': "\<forall>q\<in>set ps. status_rc q = 1 \<and> not_started K (status_state q)"
    using Cons.prems(1) by simp
  have step: "multi_loop K chs n s ((q # ps) @ rest)
                = multi_loop K chs n (s\<lparr>dwf_error := last_error q\<rparr>) (ps @ rest)"
    using q Cons.prems(2) assms(3) by simp
  from Cons.IH[OF rest', of "s\<lparr>dwf_error := last_error q\<rparr>"] Cons.prems(2)
  obtain e where "multi_loop K chs n (s\<lparr>dwf_error := last_error q\<rparr>) (ps @ rest)
                    = multi_loop K chs n (s\<lparr>dwf_error := last_error q, dwf_error := e\<rparr>) rest"
    by auto
  then show ?case unfolding step by (intro exI[of _ e]) simp
qed

lemma multi_loop_final_poll:
  assumes "chs \<noteq> []" and "0 < n" and "cSamples s = 0"
    and "status_rc p = 1" and "\<not> not_started K (status_state p)" and "record_rc p = 1"
    and "available p \<noteq> 0" and "n \<le> lost p + available p"
  shows "\<exists>s'. multi_loop K chs n s (p # qs) = Some (Inr s')
      \<and> fetch_result s' = Some (fst (status_data16 p (input_value (last chs)) 0
                                   (if lost p + available p > n then n - lost p else available p)))
      \<and> dwf_error s' = last_error p"
proof -
  let ?k = "if lost p + available p > n then n - lost p else available p"
  let ?s1 = "s\<lparr>cLost := lost p, cCorrupted := corrupted p,
                     cSamples := cSamples s + lost p, dwf_error := last_error p\<rparr>"
  let ?s2 = "fetch_channels p (cSamples ?s1) ?k chs 0 ?s1"
  let ?s3 = "?s2\<lparr>cSamples := cSamples ?s2 + ?k\<rparr>"
  have other: "cSamples ?s2 = lost p" "dwf_error ?s2 = last_error p"
    using fetch_channels_other[of p "cSamples ?s1" ?k chs 0 ?s1] assms(3) by simp_all
  have res: "fetch_result ?s2 = Some (fst (status_data16 p (input_value (last chs)) 0 ?k))"
    by (rule fetch_channels_result[OF assms(1)])
  have fin: "\<not> cSamples ?s3 < n" using other(1) assms(8) by (simp split: if_splits)
  have "multi_loop K chs n s (p # qs) = multi_loop K chs n ?s3 qs"
    using assms(2-7) by (simp add: Let_def)
  also have "\<dots> = Some (Inr ?s3)" by (rule multi_loop_done[OF fin])
  finally have "multi_loop K chs n s (p # qs) = Some (Inr ?s3)" .
  moreover have "fetch_result ?s3 = Some (fst (status_data16 p (input_value (last chs)) 0 ?k))"
    using res by simp
  moreover have "dwf_error ?s3 = last_error p" using other(2) by simp
  ultimately show ?thesis by blast
qed

lemma fill_on_channels_checks:
  assumes "chs \<noteq> []" and "0 \<le> n"
    and "fst (channel_range dev (input_value (hd chs))) = 1"
    and "fst (channel_offset dev (input_value (hd chs))) = 1"
    and "multi_loop K chs n (multi_init dev chs n) (polls dev) = Some (Inr s)"
    and "fetch_result s = Some r" and "r \<noteq> 1"
  shows "fill_recorded_samples_on_channels K dev chs n = Some (Inl (raise_dwf (dwf_error s)))"
proof -
  obtain first rest where chs: "chs = first # rest" using assms(1) by (cases chs) auto
  obtain r1 r2 where rr: "channel_range dev (input_value first) = (1, r1)"
      "channel_offset dev (input_value first) = (1, r2)"
    using assms(3,4) chs
    by (cases "channel_range dev (input_value first)"; cases "channel_offset dev (input_value first)")
       simp
  have loop: "multi_loop K (first # rest) n (multi_init dev (first # rest) n) (polls dev)
                = Some (Inr s)"
    using assms(5) chs by simp
  show ?thesis
    unfolding chs fill_recorded_samples_on_channels_def
    using assms(2,6,7) rr
    by (simp add: get_analog_input_range_def get_analog_input_offset_def loop multi_finish_def)
qed

lemma fill_on_channels_failing_last:
  assumes "chs \<noteq> []" and "0 < n"
    and "fst (channel_range dev (input_value (hd chs))) = 1"
    and "fst (channel_offset dev (input_value (hd chs))) = 1"
    and "polls dev = ps @ p # qs"
    and "\<forall>q\<in>set ps. status_rc q = 1 \<and> not_started K (status_state q)"
    and "status_rc p = 1" and "\<not> not_started K (status_state p)" and "record_rc p = 1"
    and "available p \<noteq> 0" and "n \<le> lost p + available p"
    and "fst (status_data16 p (input_value (last chs)) 0
               (if lost p + available p > n then n - lost p else available p)) \<noteq> 1"
  shows "fill_recorded_samples_on_channels K dev chs n = Some (Inl (raise_dwf (last_error p)))"
proof -
  have c0: "cSamples (multi_init dev chs n) = 0" by (simp add: multi_init_def)
  from multi_loop_skipped[OF assms(6) c0 assms(2), of chs "p # qs"]
  obtain e where skip: "multi_loop K chs n (multi_init dev chs n) (ps @ p # qs)
                  = multi_loop K chs n ((multi_init dev chs n)\<lparr>dwf_error := e\<rparr>) (p # qs)"
    by blast
  have c0': "cSamples ((multi_init dev chs n)\<lparr>dwf_error := e\<rparr>) = 0" by (simp add: multi_init_def)
  from multi_loop_final_poll[OF assms(1,2) c0' assms(7,8,9,10,11), of qs]
  obtain s' where fin: "multi_loop K chs n ((multi_init dev chs n)\<lparr>dwf_error := e\<rparr>) (p # qs)
                          = Some (Inr s')"
    and res: "fetch_result s' = Some (fst (status_data16 p (input_value (last chs)) 0
                                   (if lost p + available p > n then n - lost p else available p)))"
    and err: "dwf_error s' = last_error p"
    by blast
  have loop: "multi_loop K chs n (multi_init dev chs n) (polls dev) = Some (Inr s')"
    using skip fin assms(5) by simp
  have n0: "0 \<le> n" using assms(2) by simp
  from fill_on_channels_checks[OF assms(1) n0 assms(3,4) loop res assms(12)]
  show ?thesis by (simp add: err)
qed


lemma two_channel_eval:
  "fill_recorded_samples_on_channels sdk_constants (two_range_scope [two_channel_poll])
       [Channel1, Channel2] 2
     = Some (Inr ([], [[3/2, 1/2], [1, 65535/32768]]))"
  by (simp add: fill_recorded_samples_on_channels_def get_analog_input_range_def
        get_analog_input_offset_def multi_finish_def multi_init_def two_range_scope_def
        two_channel_poll_def sdk_constants_def not_started_def Let_def write_samples_def
        fetch16_def to_volts_def loss_warnings_def)


subsection \<open>Flows: one native call and its test\<close>

lemma then_do_ret [simp]: "then_do (ret x) f = f x"
  by (rule ext)+ (simp add: then_do_def ret_def)

lemma then_do_raise [simp]: "then_do (raise_error e) f = raise_error e"
  by (rule ext)+ (simp add: then_do_def raise_error_def)

lemma then_do_Inl: "m lib h = (Inl e, h') \<Longrightarrow> then_do m f lib h = (Inl e, h')"
  by (simp add: then_do_def)

lemma then_do_Inr: "m lib h = (Inr x, h') \<Longrightarrow> then_do m f lib h = f x lib h'"
  by (simp add: then_do_def)

lemma checked_ok:
  "return_code (lib h c) = 1 \<Longrightarrow> checked c lib h = (Inr (lib h c), c # h)"
  by (simp add: checked_def then_do_def native_def ret_def)

lemma raise_PyDwfError_eq:
  "raise_PyDwfError lib h =
     (Inl (PyDwfError (out_nth (lib h (Call ''FDwfGetLastError'' [])) 0)
             (message (lib (Call ''FDwfGetLastError'' [] # h) (Call ''FDwfGetLastErrorMsg'' [])))),
      Call ''FDwfGetLastErrorMsg'' [] # Call ''FDwfGetLastError'' [] # h)"
  by (simp add: raise_PyDwfError_def get_last_error_def get_last_error_message_def
        then_do_def native_def ret_def raise_error_def)

lemma checked_fail:
  "return_code (lib h c) \<noteq> 1 \<Longrightarrow> checked c lib h = raise_PyDwfError lib (c # h)"
  by (simp add: checked_def then_do_def native_def)

subsection \<open>The enable gate\<close>

lemma enable_state_ok:
  assumes "ch \<noteq> NotAChannel" and "return_code (lib h (enable_query F ch)) = 1"
  shows "get_analog_channel_enable_state F ch lib h
           = (Inr (out_nth (lib h (enable_query F ch)) 0), enable_query F ch # h)"
  using assms
  by (cases ch) (simp_all add: get_analog_channel_enable_state_def then_do_def checked_ok ret_def)

lemma verify_trace:
  assumes "enable_answers F lib st chs"
  shows "verify_channels_enable_status F chs lib h =
           (if \<exists>ch\<in>set chs. st ch \<noteq> 1 then Inl (RuntimeError ''channel is not enabled'')
            else Inr (),
            rev (map (enable_query F) (queried st chs)) @ h)"
  using assms
proof (induction chs arbitrary: h)
  case Nil
  then show ?case by (simp add: ret_def)
next
  case (Cons ch chs)
  have here: "ch \<noteq> NotAChannel" "return_code (lib h (enable_query F ch)) = 1"
    "out_nth (lib h (enable_query F ch)) 0 = st ch"
    using Cons.prems by (simp_all add: enable_answers_def)
  have rest: "enable_answers F lib st chs"
    using Cons.prems by (simp add: enable_answers_def)
  show ?case
  proof (cases "st ch = 1")
    case True
    then show ?thesis
      using enable_state_ok[where ch = ch and lib = lib and h = h and F = F, OF here(1,2)] here(3) Cons.IH[OF rest]
      by (simp add: then_do_def)
  next
    case False
    then show ?thesis
      using enable_state_ok[where ch = ch and lib = lib and h = h and F = F, OF here(1,2)] here(3)
      by (simp add: then_do_def raise_error_def)
  qed
qed

lemma queried_subset: "set (queried st chs) \<subseteq> set chs"
  by (induction chs) auto

text \<open>
  C4. Let the library answer the enable query of every channel of the list with
  success and with the state \<open>st\<close> gives, the channels being members of the two
  channel enumerations. Then the enable check raises if and only if some channel of
  the list has a state other than 1. In that case \<^verbatim>\<open>play_analog_signal\<close> and
  \<^verbatim>\<open>record_analog_signal\<close> called with the list raise the check's
  \<^verbatim>\<open>RuntimeError\<close>, and the native calls they have made by then are enable queries of
  listed channels only: no call that programs a parameter has reached the library.
\<close>

theorem enable_gate:
  assumes "enable_answers F lib st chs"
  shows "((\<exists>e. fst (verify_channels_enable_status F chs lib h) = Inl e)
            \<longleftrightarrow> (\<exists>ch\<in>set chs. st ch \<noteq> 1))
       \<and> ((\<exists>ch\<in>set chs. st ch \<noteq> 1) \<longrightarrow>
            (\<exists>qs. set qs \<subseteq> enable_query F ` set chs
               \<and> verify_channels_enable_status F chs lib h
                    = (Inl (RuntimeError ''channel is not enabled''), qs @ h)
               \<and> play_analog_signal F array_truth (ChannelList chs) pa lib h
                    = (Inl (RuntimeError ''channel is not enabled''), qs @ h)
               \<and> record_analog_signal F (ChannelList chs) ra lib h
                    = (Inl (RuntimeError ''channel is not enabled''), qs @ h)))"
proof (intro conjI impI)
  show "(\<exists>e. fst (verify_channels_enable_status F chs lib h) = Inl e)
            \<longleftrightarrow> (\<exists>ch\<in>set chs. st ch \<noteq> 1)"
    by (simp add: verify_trace[OF assms])
next
  assume off: "\<exists>ch\<in>set chs. st ch \<noteq> 1"
  let ?qs = "rev (map (enable_query F) (queried st chs))"
  have v: "verify_channels_enable_status F chs lib h
             = (Inl (RuntimeError ''channel is not enabled''), ?qs @ h)"
    using off by (simp add: verify_trace[OF assms])
  have sub: "set ?qs \<subseteq> enable_query F ` set chs"
    using queried_subset[of st chs] by auto
  have p: "play_analog_signal F array_truth (ChannelList chs) pa lib h
             = (Inl (RuntimeError ''channel is not enabled''), ?qs @ h)"
    by (simp add: play_analog_signal_def then_do_def v)
  have r: "record_analog_signal F (ChannelList chs) ra lib h
             = (Inl (RuntimeError ''channel is not enabled''), ?qs @ h)"
    by (simp add: record_analog_signal_def then_do_def v)
  from sub v p r
  show "\<exists>qs. set qs \<subseteq> enable_query F ` set chs
               \<and> verify_channels_enable_status F chs lib h
                    = (Inl (RuntimeError ''channel is not enabled''), qs @ h)
               \<and> play_analog_signal F array_truth (ChannelList chs) pa lib h
                    = (Inl (RuntimeError ''channel is not enabled''), qs @ h)
               \<and> record_analog_signal F (ChannelList chs) ra lib h
                    = (Inl (RuntimeError ''channel is not enabled''), qs @ h)"
    by blast
qed

lemma wavegen2_off_answers:
  "enable_answers some_flow_constants wavegen2_off wavegen2_off_state
     [Output WaveGen1, Output WaveGen2]"
  by (simp add: enable_answers_def enable_query_def some_flow_constants_def wavegen2_off_def
        wavegen2_off_state_def out_nth_def)

lemma wavegen2_queries:
  "enable_query some_flow_constants (Output WaveGen1)
     = Call ''FDwfAnalogOutNodeEnableGet'' [IntArg 0, IntArg 0]"
  "enable_query some_flow_constants (Output WaveGen2)
     = Call ''FDwfAnalogOutNodeEnableGet'' [IntArg 1, IntArg 0]"
  by (simp_all add: enable_query_def some_flow_constants_def)

text \<open>
  The theorem at the two generator channels, the second of which is not enabled: both
  flows raise after the two enable queries.
\<close>

theorem enable_gate_witness:
  "enable_answers some_flow_constants wavegen2_off wavegen2_off_state
     [Output WaveGen1, Output WaveGen2]
   \<and> wavegen2_off_state (Output WaveGen2) = 0
   \<and> play_analog_signal some_flow_constants an_array_truth
        (ChannelList [Output WaveGen1, Output WaveGen2]) a_sine wavegen2_off []
      = (Inl (RuntimeError ''channel is not enabled''),
         [Call ''FDwfAnalogOutNodeEnableGet'' [IntArg 1, IntArg 0],
          Call ''FDwfAnalogOutNodeEnableGet'' [IntArg 0, IntArg 0]])
   \<and> record_analog_signal some_flow_constants
        (ChannelList [Output WaveGen1, Output WaveGen2]) a_recording wavegen2_off []
      = (Inl (RuntimeError ''channel is not enabled''),
         [Call ''FDwfAnalogOutNodeEnableGet'' [IntArg 1, IntArg 0],
          Call ''FDwfAnalogOutNodeEnableGet'' [IntArg 0, IntArg 0]])"
proof -
  have off: "\<exists>ch\<in>set [Output WaveGen1, Output WaveGen2]. wavegen2_off_state ch \<noteq> 1"
    by (simp add: wavegen2_off_state_def)
  from enable_gate[OF wavegen2_off_answers, of "[]" an_array_truth a_sine a_recording,
      THEN conjunct2, rule_format, OF off]
  obtain qs where
    v: "verify_channels_enable_status some_flow_constants [Output WaveGen1, Output WaveGen2]
          wavegen2_off [] = (Inl (RuntimeError ''channel is not enabled''), qs @ [])"
    and p: "play_analog_signal some_flow_constants an_array_truth
        (ChannelList [Output WaveGen1, Output WaveGen2]) a_sine wavegen2_off []
      = (Inl (RuntimeError ''channel is not enabled''), qs @ [])"
    and r: "record_analog_signal some_flow_constants
        (ChannelList [Output WaveGen1, Output WaveGen2]) a_recording wavegen2_off []
      = (Inl (RuntimeError ''channel is not enabled''), qs @ [])"
    by blast
  have "verify_channels_enable_status some_flow_constants [Output WaveGen1, Output WaveGen2]
          wavegen2_off []
        = (Inl (RuntimeError ''channel is not enabled''),
           [Call ''FDwfAnalogOutNodeEnableGet'' [IntArg 1, IntArg 0],
            Call ''FDwfAnalogOutNodeEnableGet'' [IntArg 0, IntArg 0]])"
    unfolding verify_trace[OF wavegen2_off_answers]
    by (simp add: wavegen2_off_state_def wavegen2_queries)
  with v have "qs = [Call ''FDwfAnalogOutNodeEnableGet'' [IntArg 1, IntArg 0],
            Call ''FDwfAnalogOutNodeEnableGet'' [IntArg 0, IntArg 0]]" by simp
  with p r wavegen2_off_answers show ?thesis by (simp add: wavegen2_off_state_def)
qed

subsection \<open>Opening the connection\<close>

lemma open_connection_falsy:
  "\<not> truthy config_index \<Longrightarrow>
   open_connection K config_index hdwf lib h =
     (let r = lib h (Call ''FDwfDeviceOpen'' [IntArg (- 1)]);
          hdwf' = (case out r of [] \<Rightarrow> hdwf | v # _ \<Rightarrow> v)
      in if hdwf' = hdwfNone K
         then raise_PyDwfError lib (Call ''FDwfDeviceOpen'' [IntArg (- 1)] # h)
         else (Inr hdwf', Call ''FDwfDeviceOpen'' [IntArg (- 1)] # h))"
  by (simp add: open_connection_def then_do_def native_def Let_def ret_def)

lemma open_connection_truthy:
  "n \<noteq> 0 \<Longrightarrow>
   open_connection K (Some n) hdwf lib h =
     (let r = lib h (Call ''FDwfDeviceConfigOpen'' [IntArg (- 1), IntArg n]);
          hdwf' = (case out r of [] \<Rightarrow> hdwf | v # _ \<Rightarrow> v)
      in if hdwf' = hdwfNone K
         then raise_PyDwfError lib (Call ''FDwfDeviceConfigOpen'' [IntArg (- 1), IntArg n] # h)
         else (Inr hdwf', Call ''FDwfDeviceConfigOpen'' [IntArg (- 1), IntArg n] # h))"
  by (simp add: open_connection_def then_do_def native_def Let_def ret_def truthy_def)

text \<open>
  C9. \<^verbatim>\<open>open_connection(0)\<close> behaves as \<^verbatim>\<open>open_connection(None)\<close>: the outcome
  and the native calls are the same, and the device is opened with
  \<^verbatim>\<open>FDwfDeviceOpen\<close>, followed by nothing but the error queries of a failed open.
  Only a configuration index other than 0 opens the device with
  \<^verbatim>\<open>FDwfDeviceConfigOpen\<close> and that index.
\<close>

theorem open_connection_zero:
  "open_connection K (Some 0) hdwf lib h = open_connection K None hdwf lib h
   \<and> (\<exists>qs. set qs \<subseteq> {Call ''FDwfGetLastError'' [], Call ''FDwfGetLastErrorMsg'' []}
          \<and> snd (open_connection K (Some 0) hdwf lib h)
              = qs @ Call ''FDwfDeviceOpen'' [IntArg (- 1)] # h)
   \<and> (\<forall>n. n \<noteq> 0 \<longrightarrow>
         (\<exists>qs. set qs \<subseteq> {Call ''FDwfGetLastError'' [], Call ''FDwfGetLastErrorMsg'' []}
            \<and> snd (open_connection K (Some n) hdwf lib h)
                = qs @ Call ''FDwfDeviceConfigOpen'' [IntArg (- 1), IntArg n] # h))"
proof (intro conjI allI impI)
  show "open_connection K (Some 0) hdwf lib h = open_connection K None hdwf lib h"
    by (simp add: open_connection_falsy truthy_def)
next
  let ?c = "Call ''FDwfDeviceOpen'' [IntArg (- 1)]"
  have "snd (open_connection K (Some 0) hdwf lib h) = [] @ ?c # h
      \<or> snd (open_connection K (Some 0) hdwf lib h)
           = [Call ''FDwfGetLastErrorMsg'' [], Call ''FDwfGetLastError'' []] @ ?c # h"
    by (simp add: open_connection_falsy truthy_def Let_def raise_PyDwfError_eq)
  then show "\<exists>qs. set qs \<subseteq> {Call ''FDwfGetLastError'' [], Call ''FDwfGetLastErrorMsg'' []}
          \<and> snd (open_connection K (Some 0) hdwf lib h) = qs @ ?c # h"
    by (elim disjE) (rule exI[of _ "[]"], simp,
         rule exI[of _ "[Call ''FDwfGetLastErrorMsg'' [], Call ''FDwfGetLastError'' []]"], simp)
next
  fix n :: int
  assume n: "n \<noteq> 0"
  let ?c = "Call ''FDwfDeviceConfigOpen'' [IntArg (- 1), IntArg n]"
  have "snd (open_connection K (Some n) hdwf lib h) = [] @ ?c # h
      \<or> snd (open_connection K (Some n) hdwf lib h)
           = [Call ''FDwfGetLastErrorMsg'' [], Call ''FDwfGetLastError'' []] @ ?c # h"
    by (simp add: open_connection_truthy[OF n] Let_def raise_PyDwfError_eq)
  then show "\<exists>qs. set qs \<subseteq> {Call ''FDwfGetLastError'' [], Call ''FDwfGetLastErrorMsg'' []}
          \<and> snd (open_connection K (Some n) hdwf lib h) = qs @ ?c # h"
    by (elim disjE) (rule exI[of _ "[]"], simp,
         rule exI[of _ "[Call ''FDwfGetLastErrorMsg'' [], Call ''FDwfGetLastError'' []]"], simp)
qed

text \<open>The theorem at the indices 0, \<^verbatim>\<open>None\<close> and 1 on a library that hands out the handle 7.\<close>

theorem open_connection_zero_witness:
  "(1::int) \<noteq> 0
   \<and> open_connection sdk_constants (Some 0) 0 opening_library []
       = (Inr 7, [Call ''FDwfDeviceOpen'' [IntArg (- 1)]])
   \<and> open_connection sdk_constants None 0 opening_library []
       = (Inr 7, [Call ''FDwfDeviceOpen'' [IntArg (- 1)]])
   \<and> open_connection sdk_constants (Some 1) 0 opening_library []
       = (Inr 7, [Call ''FDwfDeviceConfigOpen'' [IntArg (- 1), IntArg 1]])"
proof -
  have one: "open_connection sdk_constants (Some 1) 0 opening_library []
       = (Inr 7, [Call ''FDwfDeviceConfigOpen'' [IntArg (- 1), IntArg 1]])"
    by (simp add: open_connection_truthy opening_library_def sdk_constants_def)
  have none: "open_connection sdk_constants None 0 opening_library []
       = (Inr 7, [Call ''FDwfDeviceOpen'' [IntArg (- 1)]])"
    by (simp add: open_connection_falsy truthy_def opening_library_def sdk_constants_def)
  from open_connection_zero[of sdk_constants 0 opening_library "[]"] none one
  show ?thesis by simp
qed

subsection \<open>The error contract\<close>

lemma set_trigger_source_eq:
  "set_analog_input_trigger_source source sec lib h =
     (let t = Call ''FDwfAnalogInTriggerAutoTimeoutSet'' [DoubleArg sec];
          s = Call ''FDwfAnalogInTriggerSourceSet'' [IntArg source]
      in if return_code (lib h t) \<noteq> 1 \<or> return_code (lib (t # h) s) \<noteq> 1
         then raise_PyDwfError lib (s # t # h)
         else (Inr (), s # t # h))"
  by (simp add: set_analog_input_trigger_source_def then_do_def native_def ret_def Let_def)

text \<open>
  C5 fails in the code. The FIFO drain tests the return code of the fetch once, after
  the loop: on a running scope whose first poll hands over two samples with a failing
  fetch (code 0, nothing copied) and whose second poll hands over two samples with a
  successful one, \<^verbatim>\<open>fill_recorded_samples(Channel1, 4)\<close> raises nothing and returns
  four voltages, the first two converted from slots no fetch has filled. And
  \<^verbatim>\<open>_set_analog_output_idle_state\<close>, whose one native call fails, raises with the
  code but never asks the library for the message, which the exception does not carry.
\<close>

theorem failing_fetch_not_raised:
  "fst (status_data16 (hd failing_fetch_polls) (input_value Channel1) 0 2) = 0
   \<and> fill_recorded_samples sdk_constants (a_scope failing_fetch_polls) Channel1 4
       = Some (Inr ([], [1, 1, 3/2, 1/2]))
   \<and> return_code (idle_rejecting_library [] (Call ''FDwfAnalogOutIdleSet'' [IntArg 0, IntArg 1])) = 0
   \<and> message (idle_rejecting_library
                 [Call ''FDwfGetLastError'' [], Call ''FDwfAnalogOutIdleSet'' [IntArg 0, IntArg 1]]
                 (Call ''FDwfGetLastErrorMsg'' [])) = ''idle state rejected''
   \<and> checked_message_unread (Call ''FDwfAnalogOutIdleSet'' [IntArg 0, IntArg 1])
         idle_rejecting_library []
       = (Inl (PyDwfError 6 ''<bound method get_last_error_message>''),
          [Call ''FDwfGetLastError'' [], Call ''FDwfAnalogOutIdleSet'' [IntArg 0, IntArg 1]])"
proof -
  have b: "fill_recorded_samples sdk_constants (a_scope failing_fetch_polls) Channel1 4
       = Some (Inr ([], [1, 1, 3/2, 1/2]))"
    by (simp add: fifo_eval failing_fetch_polls_def numeral_2_eq_2)
  have c: "checked_message_unread (Call ''FDwfAnalogOutIdleSet'' [IntArg 0, IntArg 1])
         idle_rejecting_library []
       = (Inl (PyDwfError 6 ''<bound method get_last_error_message>''),
          [Call ''FDwfGetLastError'' [], Call ''FDwfAnalogOutIdleSet'' [IntArg 0, IntArg 1]])"
    by (simp add: checked_message_unread_def get_last_error_def then_do_def native_def ret_def
          raise_error_def idle_rejecting_library_def out_nth_def)
  show ?thesis using b c
    by (simp add: failing_fetch_polls_def a_poll_def idle_rejecting_library_def)
qed

text \<open>
  The error state is read late in \<^verbatim>\<open>_set_analog_input_trigger_source\<close> as well: when
  its auto-timeout call fails, it still makes the trigger-source call and then raises
  with the error state read after that second call (code 0, no message) instead of the
  code 3 the library reports right after the failing call.
\<close>

lemma trigger_source_error_read_late:
  "return_code (stale_library [] (Call ''FDwfAnalogInTriggerAutoTimeoutSet'' [DoubleArg 0])) = 0
   \<and> out_nth (stale_library [Call ''FDwfAnalogInTriggerAutoTimeoutSet'' [DoubleArg 0]]
                (Call ''FDwfGetLastError'' [])) 0 = 3
   \<and> set_analog_input_trigger_source 11 0 stale_library []
       = (Inl (PyDwfError 0 []),
          [Call ''FDwfGetLastErrorMsg'' [], Call ''FDwfGetLastError'' [],
           Call ''FDwfAnalogInTriggerSourceSet'' [IntArg 11],
           Call ''FDwfAnalogInTriggerAutoTimeoutSet'' [DoubleArg 0]])"
proof -
  have a: "set_analog_input_trigger_source 11 0 stale_library []
       = (Inl (PyDwfError 0 []),
          [Call ''FDwfGetLastErrorMsg'' [], Call ''FDwfGetLastError'' [],
           Call ''FDwfAnalogInTriggerSourceSet'' [IntArg 11],
           Call ''FDwfAnalogInTriggerAutoTimeoutSet'' [DoubleArg 0]])"
    by (simp add: set_trigger_source_eq Let_def raise_PyDwfError_eq stale_library_def out_nth_def
          error_query_def)
  show ?thesis using a
    by (simp add: stale_library_def out_nth_def error_query_def)
qed

subsection \<open>The frequency steps of the network analysis\<close>

lemma sweep_frequency_spec:
  assumes "2 \<le> steps" and "0 < fs" and "fs < fe"
  shows "sweep_frequency fs fe steps i = Inr (spec_frequency fs fe steps i)"
proof -
  have "0 < fe / fs" using assms by simp
  then have "\<not> fe / fs \<le> 0" by (simp only: not_le)
  then show ?thesis using assms by (simp add: sweep_frequency_def spec_frequency_def)
qed

lemma log_ratio_pos:
  assumes "0 < fs" and "fs < (fe::real)"
  shows "0 < log 10 (fe / fs)"
  using assms by simp

lemma spec_frequency_first:
  assumes "2 \<le> steps" and "0 < fs" and "fs < fe"
  shows "spec_frequency fs fe steps 0 = fs"
proof -
  have r: "0 < fe / fs" using assms by simp
  have "10 powr (- log 10 (fe / fs)) = inverse (fe / fs)"
    using r by (simp add: powr_minus)
  then show ?thesis using assms by (simp add: spec_frequency_def)
qed

lemma spec_frequency_last:
  assumes "2 \<le> steps" and "0 < fs" and "fs < fe"
  shows "spec_frequency fs fe steps (steps - 1) = fe"
  using assms by (simp add: spec_frequency_def)

lemma spec_frequency_mono:
  assumes "2 \<le> steps" and "0 < fs" and "fs < fe" and "i < j"
  shows "spec_frequency fs fe steps i < spec_frequency fs fe steps j"
proof -
  have L: "0 < log 10 (fe / fs)" using assms by simp
  have d: "0 < real_of_int (steps - 1)" using assms by simp
  have "real_of_int i / real_of_int (steps - 1) < real_of_int j / real_of_int (steps - 1)"
    using d assms(4) by (simp add: divide_strict_right_mono)
  then have "(real_of_int i / real_of_int (steps - 1) - 1) * log 10 (fe / fs)
           < (real_of_int j / real_of_int (steps - 1) - 1) * log 10 (fe / fs)"
    using L by simp
  then have "10 powr ((real_of_int i / real_of_int (steps - 1) - 1) * log 10 (fe / fs))
           < 10 powr ((real_of_int j / real_of_int (steps - 1) - 1) * log 10 (fe / fs))"
    by simp
  moreover have "0 < fe" using assms by simp
  ultimately show ?thesis by (simp add: spec_frequency_def)
qed

lemma analysis_steps_frequencies:
  assumes "analysis_steps measure_step cw fs fe steps (map int [k..<n]) a = Some (Inr a')"
    and "length (rgHz a) = n"
    and "\<And>i. sweep_frequency fs fe steps i = Inr (f i)"
  shows "rgHz a' = take k (rgHz a) @ map (\<lambda>i. f (int i)) [k..<n]"
  using assms(1,2)
proof (induction "n - k" arbitrary: k a)
  case 0
  then show ?case by simp
next
  case (Suc m)
  then have kn: "k < n" by simp
  have up: "[k..<n] = k # [Suc k..<n]" using kn by (simp add: upt_conv_Cons)
  let ?a1 = "a\<lparr>rgHz := (rgHz a)[k := f (int k)]\<rparr>"
  from Suc.prems(1) obtain mm a2 where
    st: "store_measurement ?a1 (int k) mm = Inr a2"
    and rec: "analysis_steps measure_step cw fs fe steps (map int [Suc k..<n]) a2 = Some (Inr a')"
    by (auto simp: up assms(3) Let_def split: option.splits sum.splits)
  have hz2: "rgHz a2 = (rgHz a)[k := f (int k)]"
    using st by (auto simp: store_measurement_def split: prod.splits if_splits)
  have len2: "length (rgHz a2) = n" using hz2 Suc.prems(2) by simp
  have m: "m = n - Suc k" using Suc.hyps(2) by simp
  from Suc.hyps(1)[OF m rec len2]
  have "rgHz a' = take (Suc k) (rgHz a2) @ map (\<lambda>i. f (int i)) [Suc k..<n]" .
  moreover have "take (Suc k) (rgHz a2) = take k (rgHz a) @ [f (int k)]"
    using hz2 kn Suc.prems(2) by (simp add: take_Suc_conv_app_nth)
  ultimately show ?case by (simp add: up)
qed

lemma analysis_steps_total:
  assumes "\<And>i hz. \<exists>g1 g2 ph. measure_step i hz = Some (Inr (g1, g2, ph)) \<and> g1 \<noteq> 0 \<and> g2 \<noteq> 0"
    and "\<And>i. cw i = None"
    and "\<And>i. sweep_frequency fs fe steps i = Inr (f i)"
  shows "\<exists>a'. analysis_steps measure_step cw fs fe steps is a = Some (Inr a')"
proof (induction "is" arbitrary: a)
  case Nil
  then show ?case by simp
next
  case (Cons i rest)
  obtain g1 g2 ph where m: "measure_step i (f i) = Some (Inr (g1, g2, ph))" "g1 \<noteq> 0" "g2 \<noteq> 0"
    using assms(1)[of i "f i"] by blast
  show ?case
    using Cons.IH by (simp add: assms(2,3) m store_measurement_def Let_def)
qed

text \<open>
  C7. For \<open>steps \<ge> 2\<close> and \<open>0 < freq_start < freq_stop\<close>, with float64 read as the
  reals: the frequency the loop computes at step \<open>i\<close> is
  \<open>f_i = freq_stop * 10^((i/(steps-1) - 1) * log10(freq_stop/freq_start))\<close>; \<open>f_0\<close> is
  \<open>freq_start\<close>, \<open>f_(steps-1)\<close> is \<open>freq_stop\<close>, and \<open>f_i < f_j\<close> for \<open>i < j\<close>. Whenever
  \<^verbatim>\<open>perform_netwrok_analysis\<close> returns, its frequency array is \<open>f_0, ..., f_(steps-1)\<close>;
  and it does return when the configuration, every step's measurement (with gains
  other than zero), the warning queries and the final stop succeed.
\<close>

theorem sweep_schedule:
  assumes "2 \<le> steps" and "0 < freq_start" and "freq_start < freq_stop"
  shows "(\<forall>i. sweep_frequency freq_start freq_stop steps i
               = Inr (spec_frequency freq_start freq_stop steps i))
       \<and> spec_frequency freq_start freq_stop steps 0 = freq_start
       \<and> spec_frequency freq_start freq_stop steps (steps - 1) = freq_stop
       \<and> (\<forall>i j. i < j \<longrightarrow> spec_frequency freq_start freq_stop steps i
                           < spec_frequency freq_start freq_stop steps j)
       \<and> (\<forall>a. perform_netwrok_analysis setup measure_step check_warnings stop
                  freq_start freq_stop steps = Some (Inr a)
              \<longrightarrow> rgHz a = map (\<lambda>i. spec_frequency freq_start freq_stop steps (int i))
                             [0..<nat steps])
       \<and> (setup = None \<and> stop = None \<and> (\<forall>i. check_warnings i = None)
            \<and> (\<forall>i hz. \<exists>g1 g2 ph. measure_step i hz = Some (Inr (g1, g2, ph)) \<and> g1 \<noteq> 0 \<and> g2 \<noteq> 0)
          \<longrightarrow> (\<exists>a. perform_netwrok_analysis setup measure_step check_warnings stop
                       freq_start freq_stop steps = Some (Inr a)))"
proof (intro conjI allI impI)
  fix i
  show "sweep_frequency freq_start freq_stop steps i
          = Inr (spec_frequency freq_start freq_stop steps i)"
    by (rule sweep_frequency_spec[OF assms])
next
  show "spec_frequency freq_start freq_stop steps 0 = freq_start"
    by (rule spec_frequency_first[OF assms])
next
  show "spec_frequency freq_start freq_stop steps (steps - 1) = freq_stop"
    by (rule spec_frequency_last[OF assms])
next
  fix i j :: int
  assume "i < j"
  then show "spec_frequency freq_start freq_stop steps i < spec_frequency freq_start freq_stop steps j"
    by (rule spec_frequency_mono[OF assms])
next
  fix a
  assume r: "perform_netwrok_analysis setup measure_step check_warnings stop
                  freq_start freq_stop steps = Some (Inr a)"
  let ?init = "\<lparr>rgHz = replicate (nat steps) 0, rgGaC1 = replicate (nat steps) 0,
                  rgGaC2 = replicate (nat steps) 0, rgPhC2 = replicate (nat steps) 0\<rparr>"
  from r have loop: "analysis_steps measure_step check_warnings freq_start freq_stop steps
                 (map int [0..<nat steps]) ?init = Some (Inr a)"
    by (auto simp: perform_netwrok_analysis_def split: option.splits sum.splits)
  from analysis_steps_frequencies[OF loop _ sweep_frequency_spec[OF assms]]
  show "rgHz a = map (\<lambda>i. spec_frequency freq_start freq_stop steps (int i)) [0..<nat steps]"
    by simp
next
  assume ok: "setup = None \<and> stop = None \<and> (\<forall>i. check_warnings i = None)
            \<and> (\<forall>i hz. \<exists>g1 g2 ph. measure_step i hz = Some (Inr (g1, g2, ph)) \<and> g1 \<noteq> 0 \<and> g2 \<noteq> 0)"
  let ?init = "\<lparr>rgHz = replicate (nat steps) 0, rgGaC1 = replicate (nat steps) 0,
                  rgGaC2 = replicate (nat steps) 0, rgPhC2 = replicate (nat steps) 0\<rparr>"
  from ok have m: "\<And>i hz. \<exists>g1 g2 ph. measure_step i hz = Some (Inr (g1, g2, ph)) \<and> g1 \<noteq> 0 \<and> g2 \<noteq> 0"
    and w: "\<And>i. check_warnings i = None" by auto
  from analysis_steps_total[of measure_step check_warnings freq_start freq_stop steps
      "spec_frequency freq_start freq_stop steps" "map int [0..<nat steps]" ?init,
      OF m w sweep_frequency_spec[OF assms]]
  obtain a where "analysis_steps measure_step check_warnings freq_start freq_stop steps
                 (map int [0..<nat steps]) ?init = Some (Inr a)" by blast
  then show "\<exists>a. perform_netwrok_analysis setup measure_step check_warnings stop
                       freq_start freq_stop steps = Some (Inr a)"
    using ok by (simp add: perform_netwrok_analysis_def)
qed

text \<open>
  The theorem at the specification's example: five steps from 100 Hz to 100 kHz on an
  analyzer that answers every step.
\<close>

theorem sweep_schedule_witness:
  "(2::int) \<le> 5 \<and> (0::real) < 100 \<and> (100::real) < 100000
   \<and> sweep_frequency 100 100000 5 0 = Inr 100
   \<and> sweep_frequency 100 100000 5 4 = Inr 100000
   \<and> spec_frequency 100 100000 5 1 < spec_frequency 100 100000 5 2
   \<and> (\<exists>a. perform_netwrok_analysis None steady_measure (\<lambda>i. None) None 100 100000 5
              = Some (Inr a)
          \<and> rgHz a = map (\<lambda>i. spec_frequency 100 100000 5 (int i)) [0..<nat 5])"
proof -
  have h: "(2::int) \<le> 5" "(0::real) < 100" "(100::real) < 100000" by simp_all
  note t = sweep_schedule[OF h, of None steady_measure "\<lambda>i. None" None]
  have first: "sweep_frequency 100 100000 5 0 = Inr 100"
    using t by simp
  have last: "sweep_frequency 100 100000 5 4 = Inr 100000"
    using t by simp
  have mono: "spec_frequency 100 100000 5 1 < spec_frequency 100 100000 5 2"
    using t by simp
  have ok: "None = (None :: error option) \<and> None = (None :: error option)
            \<and> (\<forall>i::int. (\<lambda>i. None :: error option) i = None)
            \<and> (\<forall>i hz. \<exists>g1 g2 ph. steady_measure i hz = Some (Inr (g1, g2, ph)) \<and> g1 \<noteq> 0 \<and> g2 \<noteq> 0)"
    by (simp add: steady_measure_def)
  from t ok obtain a where
    a: "perform_netwrok_analysis None steady_measure (\<lambda>i. None) None 100 100000 5 = Some (Inr a)"
    by blast
  with t have "rgHz a = map (\<lambda>i. spec_frequency 100 100000 5 (int i)) [0..<nat 5]"
    by blast
  with a first last mono h show ?thesis by blast
qed

subsection \<open>An enabled channel\<close>

text \<open>
  With the channel enabled the gate lets the flow pass: \<^verbatim>\<open>record_analog_signal\<close> on
  the second scope channel makes its programming calls after the enable query (the
  newest call first).
\<close>

lemma checked_set_ready: "checked_set c ready_library h = (Inr (), c # h)"
  by (simp add: checked_set_def then_do_def checked_ok ready_library_def ret_def)

lemma record_enabled_example:
  "record_analog_signal some_flow_constants (ChannelList [Input Channel2]) a_recording
     ready_library []
   = (Inr (),
      [Call ''FDwfAnalogInConfigure'' [IntArg 0, IntArg 1],
       Call ''FDwfAnalogInConfigure'' [IntArg 1, IntArg 0],
       Call ''FDwfAnalogInChannelFilterSet'' [IntArg 1, IntArg 1],
       Call ''FDwfAnalogInChannelOffsetSet'' [IntArg 1, DoubleArg 0],
       Call ''FDwfAnalogInChannelRangeSet'' [IntArg 1, DoubleArg 5],
       Call ''FDwfAnalogInRecordLengthSet'' [DoubleArg 0],
       Call ''FDwfAnalogInFrequencySet'' [DoubleArg 50000],
       Call ''FDwfAnalogInAcquisitionModeSet'' [IntArg 3],
       Call ''FDwfDeviceAutoConfigureSet'' [IntArg 0],
       Call ''FDwfAnalogInChannelEnableGet'' [IntArg 1]])"
  by (simp add: record_analog_signal_def get_analog_channel_enable_state_def enable_query_def
        record_channel_def record_trigger_def channel_value_def a_recording_def
        some_flow_constants_def then_do_def checked_set_ready checked_ok ready_library_def
        ret_def out_nth_def)

end
